theory Spec2Isabelle
  imports Main "HOL-Library.Sublist" "HOL-Library.Char_ord" "HOL-Library.List_Lexorder"
begin

section \<open>Data model\<close>

text \<open>
  The program is \<^verbatim>\<open>sphinxcontrib/autojsdoc/__init__.py\<close>.  Python strings are modelled as
  \<^typ>\<open>string\<close>, every \<^typ>\<open>char\<close> standing for one code point below 256.  Python objects have
  identity and are mutated in place, so the doclets built from one structure file live in a
  store (a list of records) and are referred to by their position in it; \<open>parent\<close>,
  \<open>children\<close> and the two lookup indexes hold such positions.  An attribute that
  \<^verbatim>\<open>Obj.__init__\<close> initialises is a plain field carrying that default; an attribute that the
  code reads without a default (\<^verbatim>\<open>comment\<close>, \<^verbatim>\<open>meta\<close>) is an \<open>option\<close>, \<open>None\<close> meaning that
  the attribute is absent and reading it raises \<^verbatim>\<open>AttributeError\<close>.  A Python \<^verbatim>\<open>None\<close> stored in
  \<^verbatim>\<open>longname\<close>, \<^verbatim>\<open>name\<close>, \<^verbatim>\<open>memberof\<close> or \<^verbatim>\<open>parent\<close> is the \<open>None\<close> of an \<open>option\<close> as well.
\<close>

type_synonym addr = nat

datatype error =
    AttributeError string
  | KeyError string
  | TypeError
  | RecursionError
  | OSError
  | JSONDecodeError
  | ReError
  | AutoJSDocError string

datatype jvalue = JStr string | JNum int | JBool bool | JNull

text \<open>The \<^verbatim>\<open>meta\<close> sub-record: \<^verbatim>\<open>{path, filename, lineno, code: {value}}\<close>.\<close>

record meta =
  path :: string
  filename :: string
  lineno :: int
  code_value :: "jvalue option"

text \<open>Class \<^verbatim>\<open>Obj\<close>: the attributes set by \<^verbatim>\<open>Obj.__init__\<close> and those merged or linked later.\<close>

record Obj =
  ignore :: bool
  undocumented :: bool
  longname :: "string option"
  name :: "string option"
  memberof :: "string option"
  description :: string
  comment :: "string option"
  meta :: "meta option"
  parent :: "addr option"
  children :: "addr list"

text \<open>Class \<^verbatim>\<open>JSWithTypes\<close>: \<^verbatim>\<open>self.type.names\<close>, by default the empty list.\<close>

record JSWithTypes = Obj +
  type_names :: "string list"

text \<open>
  An element of \<^verbatim>\<open>params\<close> or \<^verbatim>\<open>returns\<close>: a record without \<^verbatim>\<open>kind\<close>, which \<^verbatim>\<open>obj_factory\<close>
  wraps in a plain \<^verbatim>\<open>obj\<close>.  Only the attributes that the renderer reads are kept;
  \<open>p_name = None\<close> means that the attribute \<^verbatim>\<open>name\<close> is absent.
\<close>

record param =
  p_name :: "string option"
  p_type_names :: "string list"
  p_description :: string
  p_meta :: "meta option"

text \<open>
  A doclet of the structure file: a record with a \<^verbatim>\<open>kind\<close>, which \<^verbatim>\<open>obj_factory\<close> turns into
  the class that \<^verbatim>\<open>vtable\<close> gives for the kind (or into \<^verbatim>\<open>Obj\<close>).  The fields of all these
  classes are gathered in one record.
\<close>

record doclet = JSWithTypes +
  kind :: string
  params :: "param list"
  returns :: "param list"
  files :: "addr list"

text \<open>
  A value of an option of the directive or of a configuration variable: \<^verbatim>\<open>True\<close>/\<^verbatim>\<open>False\<close>,
  a string, or a list of strings (the result of \<^verbatim>\<open>members_option\<close>).
\<close>

datatype optval = OBool bool | OStr string | OList "string list"

text \<open>
  An \<^verbatim>\<open>AutoDirective\<close> instance: \<^verbatim>\<open>self.name\<close>, \<^verbatim>\<open>self.arguments\<close>, \<^verbatim>\<open>self.options\<close>, the
  three variables \<^verbatim>\<open>autojsdoc_structure_json\<close>, \<^verbatim>\<open>autojsdoc_members\<close>, \<^verbatim>\<open>autojsdoc_title\<close> of
  \<^verbatim>\<open>self.env.config\<close> (looked up by the part of their name after the prefix), and the three
  attributes that \<^verbatim>\<open>run\<close> initialises.  The keys of the indexes are the values of \<^verbatim>\<open>name\<close>
  and \<^verbatim>\<open>longname\<close>, which may be \<^verbatim>\<open>None\<close>.
\<close>

record directive =
  directive_name :: string
  arguments :: "string list"
  options :: "string \<rightharpoonup> optval"
  config :: "string \<Rightarrow> optval"
  doclets :: "addr list"
  names :: "string option \<rightharpoonup> addr"
  longnames :: "string option \<rightharpoonup> addr"

text \<open>
  One call of \<^verbatim>\<open>logger.error\<close>: the message and the \<^verbatim>\<open>location\<close> keyword (\<open>None\<close> when the
  call gives none).
\<close>

type_synonym log_entry = "string \<times> string option"

text \<open>One entry of \<^verbatim>\<open>directive.content\<close> (a \<^verbatim>\<open>StringList\<close>): the line and its source tag.\<close>

type_synonym line = "string \<times> string"

text \<open>
  What \<^verbatim>\<open>merge_doclets\<close> returns: \<^verbatim>\<open>(merged, names, longnames)\<close>.  The module-level dictionary
  \<^verbatim>\<open>loaded_structure_files\<close> maps a path to such a triple; the objects that the triple refers
  to are reachable from it alone, so an entry of the model holds their store next to the
  triple.
\<close>

type_synonym triple = "addr list \<times> (string option \<rightharpoonup> addr) \<times> (string option \<rightharpoonup> addr)"

text \<open>
  The state that outlives a directive: the cache, the calls of \<^verbatim>\<open>logger.error\<close> so far, and
  the set \<^verbatim>\<open>record_dependencies\<close> of the document settings.
\<close>

record process =
  loaded_structure_files :: "string \<rightharpoonup> doclet list \<times> triple"
  error_log :: "log_entry list"
  record_dependencies :: "string set"

text \<open>
  The content of a file as \<^verbatim>\<open>jsonlib.load\<close> sees it: not JSON, or a list of records (each
  given with the defaults of the class it will be wrapped in).
\<close>

datatype file_content = NotJSON | Records "doclet list"

section \<open>Strings\<close>

definition digit_char :: "nat \<Rightarrow> char" where
  "digit_char n = ''0123456789'' ! n"

function str_nat :: "nat \<Rightarrow> string" where
  "str_nat n = (if n < 10 then [digit_char n] else str_nat (n div 10) @ [digit_char (n mod 10)])"
  by pat_completeness auto
termination
  by (relation "measure (\<lambda>n. n)") auto

declare str_nat.simps [simp del]

text \<open>The conversion \<^verbatim>\<open>%d\<close> of an integer.\<close>

definition str_int :: "int \<Rightarrow> string" where
  "str_int i = (if i < 0 then CHR ''-'' # str_nat (nat (- i)) else str_nat (nat i))"

text \<open>The conversion \<^verbatim>\<open>%s\<close> of a string or \<^verbatim>\<open>None\<close>.\<close>

definition str_opt :: "string option \<Rightarrow> string" where
  "str_opt s = (case s of None \<Rightarrow> ''None'' | Some t \<Rightarrow> t)"

text \<open>\<^verbatim>\<open>os.path.join\<close> of two components (\<^verbatim>\<open>posixpath\<close>).\<close>

definition os_path_join :: "string \<Rightarrow> string \<Rightarrow> string" where
  "os_path_join a b =
     (if b \<noteq> [] \<and> hd b = CHR ''/'' then b
      else if a = [] \<or> last a = CHR ''/'' then a @ b
      else a @ ''/'' @ b)"

text \<open>\<^verbatim>\<open>sep.join (xs)\<close>.\<close>

fun str_join :: "string \<Rightarrow> string list \<Rightarrow> string" where
  "str_join sep [] = []"
| "str_join sep [x] = x"
| "str_join sep (x # y # ys) = x @ sep @ str_join sep (y # ys)"

text \<open>
  \<^verbatim>\<open>str.isspace\<close>, which is also the class \<^verbatim>\<open>\s\<close> of \<^verbatim>\<open>re\<close> on \<^verbatim>\<open>str\<close> patterns, and the line
  boundaries of \<^verbatim>\<open>str.splitlines\<close>, for code points below 256.
\<close>

definition is_space :: "char \<Rightarrow> bool" where
  "is_space c = (of_char c \<in> {9, 10, 11, 12, 13, 28, 29, 30, 31, 32, 133, 160 :: nat})"

definition is_linebreak :: "char \<Rightarrow> bool" where
  "is_linebreak c = (of_char c \<in> {10, 11, 12, 13, 28, 29, 30, 133 :: nat})"

text \<open>\<^verbatim>\<open>text.strip ()\<close>.\<close>

definition str_strip :: "string \<Rightarrow> string" where
  "str_strip text = rev (dropWhile is_space (rev (dropWhile is_space text)))"

text \<open>\<^verbatim>\<open>RE_WS.sub (' ', text)\<close> with \<^verbatim>\<open>RE_WS = (\s+)\<close>: every maximal run of whitespace becomes one space.\<close>

function sub_ws :: "string \<Rightarrow> string" where
  "sub_ws [] = []"
| "sub_ws (c # cs) =
     (if is_space c then CHR '' '' # sub_ws (dropWhile is_space cs) else c # sub_ws cs)"
  by pat_completeness auto
termination
  by (relation "measure length") (auto simp: length_dropWhile_le less_Suc_eq_le)

definition normalize_space :: "string \<Rightarrow> string" where
  "normalize_space text = sub_ws (str_strip text)"

text \<open>\<^verbatim>\<open>RE_AUTOSTRIP.sub ('', name)\<close> with \<^verbatim>\<open>RE_AUTOSTRIP = ^js:auto\<close>.\<close>

definition strip_directive :: "string \<Rightarrow> string" where
  "strip_directive nm = (if prefix ''js:auto'' nm then drop 7 nm else nm)"

text \<open>\<^verbatim>\<open>bs\<close>: \<^verbatim>\<open>link.replace\<close> of one backslash by two.\<close>

definition bs :: "string \<Rightarrow> string" where
  "bs link = concat (map (\<lambda>c. if c = CHR 0x5C then [CHR 0x5C, CHR 0x5C] else [c]) link)"

text \<open>
  \<^verbatim>\<open>text.splitlines ()\<close>: the first argument is the line read so far.  A carriage return
  followed by a line feed is one boundary; a boundary at the end opens no further line.
\<close>

fun splitlines_from :: "string \<Rightarrow> string \<Rightarrow> string list" where
  "splitlines_from cur [] = (if cur = [] then [] else [cur])"
| "splitlines_from cur [c] = (if is_linebreak c then [cur] else [cur @ [c]])"
| "splitlines_from cur (c # d # cs) =
     (if c = CHR 0x0D \<and> d = CHR 0x0A then cur # splitlines_from [] cs
      else if is_linebreak c then cur # splitlines_from [] (d # cs)
      else splitlines_from (cur @ [c]) (d # cs))"

definition str_splitlines :: "string \<Rightarrow> string list" where
  "str_splitlines text = splitlines_from [] text"

section \<open>Class \<^verbatim>\<open>Obj\<close>\<close>

text \<open>
  \<^verbatim>\<open>Obj.get_source_line\<close>.  The recursion follows \<^verbatim>\<open>parent\<close>; the first argument is the number
  of nested calls the interpreter still allows, after which Python raises \<^verbatim>\<open>RecursionError\<close>
  (a chain of parents may be cyclic).  The recursion runs over the two attributes that the
  method reads.
\<close>

fun source_line :: "nat \<Rightarrow> doclet list \<Rightarrow> meta option \<Rightarrow> addr option \<Rightarrow> error + (string \<times> int)" where
  "source_line 0 heap m p = Inl RecursionError"
| "source_line (Suc n) heap (Some m) p = Inr (os_path_join (path m) (filename m), lineno m)"
| "source_line (Suc n) heap None (Some p) = source_line n heap (meta (heap ! p)) (parent (heap ! p))"
| "source_line (Suc n) heap None None = Inr (''<unknown>'', 0)"

definition get_source_line :: "nat \<Rightarrow> doclet list \<Rightarrow> 'a Obj_scheme \<Rightarrow> error + (string \<times> int)" where
  "get_source_line depth heap self = source_line depth heap (meta self) (parent self)"

text \<open>\<^verbatim>\<open>Obj.doc\<close>.\<close>

definition doc :: "'a Obj_scheme \<Rightarrow> bool" where
  "doc self = (\<not> undocumented self)"

text \<open>\<^verbatim>\<open>Obj.error\<close>: the entry handed to \<^verbatim>\<open>logger.error\<close>, located by \<^verbatim>\<open>'%s:%d'\<close>.\<close>

definition Obj_error :: "nat \<Rightarrow> doclet list \<Rightarrow> 'a Obj_scheme \<Rightarrow> string \<Rightarrow> error + log_entry" where
  "Obj_error depth heap self msg =
     (case get_source_line depth heap self of
        Inl e \<Rightarrow> Inl e
      | Inr (file, line) \<Rightarrow> Inr (msg, Some (file @ '':'' @ str_int line)))"

section \<open>Forest builder\<close>

text \<open>
  \<^verbatim>\<open>AutoDirective.check_params\<close> returns the doclet it is given and changes neither the
  doclet nor the indexes; its only effect are warnings sent to \<^verbatim>\<open>logger.warn\<close>, which are
  not part of the state kept here.
\<close>

definition check_params :: "addr \<Rightarrow> addr" where
  "check_params doclet = doclet"

text \<open>
  The \<^verbatim>\<open>else\<close> branch of the merge loop: the four assignments to \<^verbatim>\<open>last_doclet\<close>, in order.
  \<^verbatim>\<open>+=\<close> reads the attribute of \<^verbatim>\<open>last_doclet\<close> first, then that of \<^verbatim>\<open>doclet\<close>.
\<close>

definition fold_into :: "doclet \<Rightarrow> doclet \<Rightarrow> error + doclet" where
  "fold_into last_doclet doclet =
     (let l1 = last_doclet\<lparr>undocumented := undocumented last_doclet \<and> undocumented doclet\<rparr> in
      case comment l1 of
        None \<Rightarrow> Inl (AttributeError ''comment'')
      | Some c1 \<Rightarrow>
          (case comment doclet of
             None \<Rightarrow> Inl (AttributeError ''comment'')
           | Some c2 \<Rightarrow>
               (let l2 = l1\<lparr>comment := Some (c1 @ c2)\<rparr>;
                    l3 = l2\<lparr>description := description l2 @ description doclet\<rparr>
                in case meta doclet of
                     None \<Rightarrow> Inl (AttributeError ''meta'')
                   | Some m \<Rightarrow> Inr (l3\<lparr>meta := Some m\<rparr>))))"

text \<open>
  One iteration of the loop of \<^verbatim>\<open>merge_doclets\<close> over the object at address \<open>a\<close>.
  \<^verbatim>\<open>setdefault\<close> inserts the object under its longname unless the key is there and returns
  the object stored under the key; \<^verbatim>\<open>doclet is last_doclet\<close> compares identities, that is
  addresses.
\<close>

fun merge_step ::
  "directive \<times> doclet list \<times> addr list \<Rightarrow> addr
     \<Rightarrow> error + (directive \<times> doclet list \<times> addr list)" where
  "merge_step (self, heap, merged) a =
     (let doclet = heap ! a;
          (self1, last_doclet) =
            (case longnames self (longname doclet) of
               None \<Rightarrow> (self\<lparr>longnames := (longnames self)(longname doclet \<mapsto> a)\<rparr>, a)
             | Some l \<Rightarrow> (self, l))
      in if a = last_doclet
         then Inr (self1\<lparr>names := (names self1)(name doclet \<mapsto> a)\<rparr>, heap,
                   merged @ [check_params a])
         else (case fold_into (heap ! last_doclet) doclet of
                 Inl e \<Rightarrow> Inl e
               | Inr l \<Rightarrow> Inr (self1, heap[last_doclet := l], merged)))"

fun merge_loop ::
  "directive \<times> doclet list \<times> addr list \<Rightarrow> addr list
     \<Rightarrow> error + (directive \<times> doclet list \<times> addr list)" where
  "merge_loop s [] = Inr s"
| "merge_loop s (a # as) =
     (case merge_step s a of Inl e \<Rightarrow> Inl e | Inr s' \<Rightarrow> merge_loop s' as)"

text \<open>The two messages of \<^verbatim>\<open>make_forest\<close>; the first one spans two source lines.\<close>

definition anonymous_msg :: "string option \<Rightarrow> string \<Rightarrow> string" where
  "anonymous_msg ln m =
     ''Could not link up object '' @ str_opt ln @ '' to '' @ m @ ''.'' @ [CHR 0x0A]
       @ replicate 29 (CHR '' '') @ ''Try giving the anonymous object an @alias.''"

definition link_msg :: "string option \<Rightarrow> string \<Rightarrow> string" where
  "link_msg ln m = ''Could not link up object '' @ str_opt ln @ '' to '' @ m"

text \<open>One iteration of the loop of \<^verbatim>\<open>make_forest\<close>; the state is the store and the error log.\<close>

fun link_step ::
  "nat \<Rightarrow> directive \<Rightarrow> doclet list \<times> log_entry list \<Rightarrow> addr
     \<Rightarrow> error + (doclet list \<times> log_entry list)" where
  "link_step depth self (heap, log) a =
     (let obj = heap ! a in
      case memberof obj of
        None \<Rightarrow> Inr (heap, log)
      | Some m \<Rightarrow>
          (case longnames self (Some m) of
             Some p \<Rightarrow>
               (let heap1 = heap[a := obj\<lparr>parent := Some p\<rparr>];
                    par = heap1 ! p
                in Inr (heap1[p := par\<lparr>children := children par @ [a]\<rparr>], log))
           | None \<Rightarrow>
               if doc obj
               then (case Obj_error depth heap obj
                            (if m = ''<anonymous>'' then anonymous_msg (longname obj) m
                             else link_msg (longname obj) m) of
                       Inl e \<Rightarrow> Inl e
                     | Inr entry \<Rightarrow> Inr (heap, log @ [entry]))
               else Inr (heap, log)))"

fun make_forest ::
  "nat \<Rightarrow> directive \<Rightarrow> doclet list \<times> log_entry list \<Rightarrow> addr list
     \<Rightarrow> error + (doclet list \<times> log_entry list)" where
  "make_forest depth self s [] = Inr s"
| "make_forest depth self s (a # as) =
     (case link_step depth self s a of Inl e \<Rightarrow> Inl e | Inr s' \<Rightarrow> make_forest depth self s' as)"

text \<open>
  \<^verbatim>\<open>AutoDirective.merge_doclets\<close>.  The result holds the state the method leaves behind (the
  indexes of the instance, the store, the log) and the triple it returns.  The locals
  \<^verbatim>\<open>names\<close> and \<^verbatim>\<open>longnames\<close> are created empty and returned; the loop writes to
  \<^verbatim>\<open>self.names\<close> and \<^verbatim>\<open>self.longnames\<close>.
\<close>

definition merge_doclets ::
  "nat \<Rightarrow> directive \<Rightarrow> doclet list \<Rightarrow> log_entry list \<Rightarrow> addr list
     \<Rightarrow> error + (directive \<times> doclet list \<times> log_entry list \<times> triple)" where
  "merge_doclets depth self heap log ds =
     (let merged0 = [];
          names_local = Map.empty;
          longnames_local = Map.empty
      in case merge_loop (self, heap, merged0) ds of
           Inl e \<Rightarrow> Inl e
         | Inr (self1, heap1, merged) \<Rightarrow>
             (case make_forest depth self1 (heap1, log) merged of
                Inl e \<Rightarrow> Inl e
              | Inr (heap2, log2) \<Rightarrow>
                  Inr (self1, heap2, log2, (merged, names_local, longnames_local))))"

section \<open>Cross-reference resolver\<close>

text \<open>The class attribute \<^verbatim>\<open>xref_table\<close>.\<close>

definition xref_table :: "string \<rightharpoonup> string" where
  "xref_table =
     [''class'' \<mapsto> ''js:class'', ''constant'' \<mapsto> ''js:data'', ''function'' \<mapsto> ''js:func'',
      ''member'' \<mapsto> ''js:attr'', ''method'' \<mapsto> ''js:meth'', ''module'' \<mapsto> ''js:mod'']"

text \<open>
  \<^verbatim>\<open>AutoDirective.xref\<close>.  \<^verbatim>\<open>kind\<close> stays \<^verbatim>\<open>None\<close> when neither dictionary has the name;
  \<^verbatim>\<open>if kind:\<close> is false for \<^verbatim>\<open>None\<close> and for the empty string; \<^verbatim>\<open>self.xref_table[kind]\<close> raises
  \<^verbatim>\<open>KeyError\<close> for a kind that the table does not have.
\<close>

definition xref :: "directive \<Rightarrow> doclet list \<Rightarrow> string \<Rightarrow> error + string" where
  "xref self heap nm =
     (let kind0 =
        (case longnames self (Some nm) of
           Some a \<Rightarrow> Some (kind (heap ! a))
         | None \<Rightarrow>
             (case names self (Some nm) of
                Some a \<Rightarrow> Some (kind (heap ! a))
              | None \<Rightarrow> None))
      in case kind0 of
           None \<Rightarrow> Inr nm
         | Some k \<Rightarrow>
             if k = [] then Inr nm
             else (case xref_table k of
                     None \<Rightarrow> Inl (KeyError k)
                   | Some r \<Rightarrow> Inr ('':'' @ r @ '':`'' @ nm @ ''`'')))"

section \<open>Render engine\<close>

text \<open>
  A \<^verbatim>\<open>run\<close> method appends lines to \<^verbatim>\<open>directive.content\<close> and reads nothing back from it.
  The model of a method returns the lines it appends, in order, or the exception it raises;
  \<open>then_do\<close> runs one piece of a method after another.
\<close>

definition then_do :: "error + line list \<Rightarrow> error + line list \<Rightarrow> error + line list" where
  "then_do first second =
     (case first of
        Inl e \<Rightarrow> Inl e
      | Inr xs \<Rightarrow> (case second of Inl e \<Rightarrow> Inl e | Inr ys \<Rightarrow> Inr (xs @ ys)))"

fun do_all :: "(error + line list) list \<Rightarrow> error + line list" where
  "do_all [] = Inr []"
| "do_all (r # rs) = then_do r (do_all rs)"

text \<open>\<^verbatim>\<open>Obj.splitlines\<close>, \<^verbatim>\<open>Obj.nl\<close>, \<^verbatim>\<open>Obj.append\<close> for a string, \<^verbatim>\<open>Obj.append_desc\<close>, \<^verbatim>\<open>Obj.underscore\<close>.\<close>

definition splitlines :: "string \<Rightarrow> nat \<Rightarrow> string list" where
  "splitlines text indent = map (\<lambda>s. replicate indent (CHR '' '') @ s) (str_splitlines text)"

definition nl :: "error + line list" where
  "nl = Inr [([], [])]"

definition Obj_append ::
  "nat \<Rightarrow> doclet list \<Rightarrow> 'a Obj_scheme \<Rightarrow> string \<Rightarrow> nat \<Rightarrow> error + line list" where
  "Obj_append depth heap self text indent =
     (case get_source_line depth heap self of
        Inl e \<Rightarrow> Inl e
      | Inr (file, sourceline) \<Rightarrow>
          Inr (map (\<lambda>l. (l, file @ '':'' @ str_int sourceline @ '':<autojsdoc>''))
                   (splitlines text indent)))"

definition get_name :: "'a Obj_scheme \<Rightarrow> string option" where
  "get_name self = name self"

definition get_longname :: "'a Obj_scheme \<Rightarrow> string option" where
  "get_longname self = longname self"

definition get_description :: "'a Obj_scheme \<Rightarrow> string" where
  "get_description self = normalize_space (description self)"

definition append_desc :: "nat \<Rightarrow> doclet list \<Rightarrow> 'a Obj_scheme \<Rightarrow> nat \<Rightarrow> error + line list" where
  "append_desc depth heap self indent =
     then_do (Obj_append depth heap self (get_description self) indent) nl"

definition underscore ::
  "nat \<Rightarrow> doclet list \<Rightarrow> 'a Obj_scheme \<Rightarrow> string \<Rightarrow> char \<Rightarrow> nat \<Rightarrow> error + line list" where
  "underscore depth heap self text c indent =
     do_all [Obj_append depth heap self text indent,
             Obj_append depth heap self (replicate (length text) c) indent,
             nl]"

text \<open>
  \<^verbatim>\<open>Obj.get_value\<close>: \<^verbatim>\<open>self.meta.code.value\<close>, or the empty string when any part is absent.
\<close>

definition get_value :: "'a Obj_scheme \<Rightarrow> jvalue" where
  "get_value self =
     (case meta self of
        None \<Rightarrow> JStr []
      | Some m \<Rightarrow> (case code_value m of None \<Rightarrow> JStr [] | Some v \<Rightarrow> v))"

text \<open>The truth value of \<^verbatim>\<open>if value:\<close>.\<close>

fun jtruthy :: "jvalue \<Rightarrow> bool" where
  "jtruthy (JStr s) = (s \<noteq> [])"
| "jtruthy (JNum n) = (n \<noteq> 0)"
| "jtruthy (JBool b) = b"
| "jtruthy JNull = False"

text \<open>
  \<^verbatim>\<open>Obj.append\<close> for the value of a constant: the source location is read first; a value
  that is no string is iterated over, which raises \<^verbatim>\<open>TypeError\<close> for a number or a boolean.
\<close>

definition append_value ::
  "nat \<Rightarrow> doclet list \<Rightarrow> 'a Obj_scheme \<Rightarrow> jvalue \<Rightarrow> nat \<Rightarrow> error + line list" where
  "append_value depth heap self v indent =
     (case v of
        JStr text \<Rightarrow> Obj_append depth heap self text indent
      | _ \<Rightarrow> (case get_source_line depth heap self of Inl e \<Rightarrow> Inl e | Inr _ \<Rightarrow> Inl TypeError))"

text \<open>
  \<^verbatim>\<open>Obj.run\<close>.  \<^verbatim>\<open>node.run\<close> is dispatched on the class of the child; the first argument is
  that dispatch, applied to the address of the child.
\<close>

definition Obj_run ::
  "(addr \<Rightarrow> nat \<Rightarrow> error + line list) \<Rightarrow> 'a Obj_scheme \<Rightarrow> nat \<Rightarrow> error + line list" where
  "Obj_run child_run self indent =
     then_do (do_all (map (\<lambda>node. child_run node indent) (children self))) nl"

text \<open>Class \<^verbatim>\<open>JSSee\<close>.\<close>

record JSSee = Obj +
  link :: string


text \<open>Class \<^verbatim>\<open>JSWithTypes\<close> and the classes \<^verbatim>\<open>JSArgument\<close>, \<^verbatim>\<open>JSReturns\<close> built from a \<^verbatim>\<open>param\<close>.\<close>

definition get_types :: "'a JSWithTypes_scheme \<Rightarrow> string" where
  "get_types self = bs (str_join ''|'' (type_names self))"

text \<open>
  \<^verbatim>\<open>JSArgument (param)\<close> and \<^verbatim>\<open>JSReturns (ret)\<close>: the defaults of \<^verbatim>\<open>JSWithTypes.__init__\<close> and
  \<^verbatim>\<open>Obj.__init__\<close>, overwritten by the attributes of the record, then \<^verbatim>\<open>parent\<close> and
  \<^verbatim>\<open>children\<close> reset.
\<close>

definition JSWithTypes_init :: "param \<Rightarrow> JSWithTypes" where
  "JSWithTypes_init d =
     \<lparr>ignore = False, undocumented = False, longname = None, name = p_name d, memberof = None,
      description = p_description d, comment = None, meta = p_meta d, parent = None,
      children = [], type_names = p_type_names d\<rparr>"

text \<open>
  \<^verbatim>\<open>JSArgument.run\<close>.  \<^verbatim>\<open>'name' in self\<close> holds for every \<^verbatim>\<open>Obj\<close>, so the name is \<^verbatim>\<open>self.name\<close>,
  which is \<^verbatim>\<open>None\<close> when the record has none.
\<close>

definition JSArgument_run ::
  "nat \<Rightarrow> doclet list \<Rightarrow> JSWithTypes \<Rightarrow> nat \<Rightarrow> error + line list" where
  "JSArgument_run depth heap self indent =
     Obj_append depth heap self
       ('':param '' @ get_types self @ '' '' @ str_opt (name self) @ '': '' @ get_description self)
       indent"

definition JSReturns_run ::
  "nat \<Rightarrow> directive \<Rightarrow> doclet list \<Rightarrow> JSWithTypes \<Rightarrow> nat \<Rightarrow> error + line list" where
  "JSReturns_run depth directive heap self indent =
     (let desc = get_description self;
          types = get_types self
      in then_do
           (if desc \<noteq> [] then Obj_append depth heap self ('':returns: '' @ desc) indent
            else Inr [])
           (if types \<noteq> []
            then (case xref directive heap types of
                    Inl e \<Rightarrow> Inl e
                  | Inr x \<Rightarrow> Obj_append depth heap self ('':rtype: '' @ x) indent)
            else Inr []))"

text \<open>Classes \<^verbatim>\<open>JSVariable\<close>, \<^verbatim>\<open>JSConstant\<close>, \<^verbatim>\<open>JSAttribute\<close>.\<close>

definition JSVariable_run ::
  "nat \<Rightarrow> directive \<Rightarrow> doclet list \<Rightarrow> 'a JSWithTypes_scheme \<Rightarrow> nat \<Rightarrow> error + line list" where
  "JSVariable_run depth directive heap self indent0 =
     (let indent = indent0 + 3;
          types = get_types self
      in then_do
           (if types \<noteq> []
            then (case xref directive heap types of
                    Inl e \<Rightarrow> Inl e
                  | Inr x \<Rightarrow> Obj_append depth heap self (''('' @ x @ '')'') indent)
            else Inr [])
           (append_desc depth heap self indent))"

definition JSConstant_run ::
  "nat \<Rightarrow> directive \<Rightarrow> doclet list \<Rightarrow> 'a JSWithTypes_scheme \<Rightarrow> nat \<Rightarrow> error + line list" where
  "JSConstant_run depth directive heap self indent =
     (if doc self
      then do_all
             [Obj_append depth heap self (''.. js:data:: '' @ str_opt (get_name self)) indent,
              nl,
              (let v = get_value self
               in if jtruthy v
                  then do_all
                         [Obj_append depth heap self ''.. code:: javascript'' (indent + 3),
                          nl,
                          append_value depth heap self v (indent + 6),
                          nl]
                  else Inr []),
              JSVariable_run depth directive heap self indent]
      else Inr [])"

definition JSAttribute_run ::
  "nat \<Rightarrow> directive \<Rightarrow> doclet list \<Rightarrow> 'a JSWithTypes_scheme \<Rightarrow> nat \<Rightarrow> error + line list" where
  "JSAttribute_run depth directive heap self indent =
     (if doc self
      then do_all
             [Obj_append depth heap self (''.. js:attribute:: '' @ str_opt (get_name self)) indent,
              nl,
              JSVariable_run depth directive heap self indent]
      else Inr [])"

text \<open>
  Classes \<^verbatim>\<open>JSCallable\<close>, \<^verbatim>\<open>JSFunction\<close>, \<^verbatim>\<open>JSMethod\<close>.  \<^verbatim>\<open>JSCallable.__init__\<close> sets \<^verbatim>\<open>params\<close>
  and \<^verbatim>\<open>returns\<close>, so \<^verbatim>\<open>'params' in self\<close> and \<^verbatim>\<open>'returns' in self\<close> hold.  \<^verbatim>\<open>p.name\<close> raises
  \<^verbatim>\<open>AttributeError\<close> for a parameter without name.
\<close>

fun param_names :: "param list \<Rightarrow> error + string list" where
  "param_names [] = Inr []"
| "param_names (p # ps) =
     (case p_name p of
        None \<Rightarrow> Inl (AttributeError ''name'')
      | Some n \<Rightarrow> (case param_names ps of Inl e \<Rightarrow> Inl e | Inr ns \<Rightarrow> Inr (n # ns)))"

definition get_signature :: "doclet \<Rightarrow> error + string" where
  "get_signature self =
     (case param_names (params self) of
        Inl e \<Rightarrow> Inl e
      | Inr args \<Rightarrow> Inr (str_opt (get_name self) @ '' ('' @ str_join '', '' args @ '')''))"

definition JSCallable_run ::
  "nat \<Rightarrow> directive \<Rightarrow> doclet list \<Rightarrow> doclet \<Rightarrow> nat \<Rightarrow> error + line list" where
  "JSCallable_run depth directive heap self indent0 =
     (let indent = indent0 + 3
      in do_all
           [append_desc depth heap self indent,
            do_all (map (\<lambda>param. JSArgument_run depth heap (JSWithTypes_init param) indent)
                        (params self)),
            nl,
            do_all (map (\<lambda>ret. JSReturns_run depth directive heap (JSWithTypes_init ret) indent)
                        (returns self)),
            nl])"

definition JSFunction_run ::
  "nat \<Rightarrow> directive \<Rightarrow> doclet list \<Rightarrow> doclet \<Rightarrow> nat \<Rightarrow> error + line list" where
  "JSFunction_run depth directive heap self indent =
     (if doc self
      then (case get_signature self of
              Inl e \<Rightarrow> Inl e
            | Inr sig \<Rightarrow>
                do_all [Obj_append depth heap self (''.. js:function:: '' @ sig) indent,
                        nl,
                        JSCallable_run depth directive heap self indent])
      else Inr [])"

definition JSMethod_run ::
  "nat \<Rightarrow> directive \<Rightarrow> doclet list \<Rightarrow> doclet \<Rightarrow> nat \<Rightarrow> error + line list" where
  "JSMethod_run depth directive heap self indent =
     (if doc self
      then (case get_signature self of
              Inl e \<Rightarrow> Inl e
            | Inr sig \<Rightarrow>
                do_all [Obj_append depth heap self (''.. js:method:: '' @ sig) indent,
                        nl,
                        JSCallable_run depth directive heap self indent])
      else Inr [])"

text \<open>Classes \<^verbatim>\<open>JSClass\<close>, \<^verbatim>\<open>JSFile\<close>, \<^verbatim>\<open>JSPackage\<close>.\<close>

definition JSClass_run ::
  "(addr \<Rightarrow> nat \<Rightarrow> error + line list) \<Rightarrow> nat \<Rightarrow> doclet list \<Rightarrow> doclet \<Rightarrow> nat
     \<Rightarrow> error + line list" where
  "JSClass_run child_run depth heap self indent =
     (if doc self
      then do_all
             [Obj_append depth heap self (''.. js:class:: '' @ str_opt (get_name self)) indent,
              nl,
              append_desc depth heap self (indent + 3),
              Obj_run child_run self (indent + 3)]
      else Inr [])"

definition JSFile_run ::
  "(addr \<Rightarrow> nat \<Rightarrow> error + line list) \<Rightarrow> nat \<Rightarrow> doclet list \<Rightarrow> doclet \<Rightarrow> nat
     \<Rightarrow> error + line list" where
  "JSFile_run child_run depth heap self indent =
     do_all
       [Obj_append depth heap self (''File: '' @ str_opt (get_name self)) indent,
        nl,
        append_desc depth heap self indent,
        Obj_run child_run self indent]"

definition JSPackage_run ::
  "(addr \<Rightarrow> nat \<Rightarrow> error + line list) \<Rightarrow> doclet \<Rightarrow> nat \<Rightarrow> error + line list" where
  "JSPackage_run child_run self indent =
     then_do (do_all (map (\<lambda>f. child_run f indent) (files self)))
             (Obj_run child_run self indent)"

text \<open>
  \<^verbatim>\<open>AutoDirective.get_opt\<close>: \<^verbatim>\<open>x or y\<close> is \<^verbatim>\<open>y\<close> when \<^verbatim>\<open>x\<close> is \<^verbatim>\<open>None\<close>, \<^verbatim>\<open>False\<close>, empty.
\<close>

fun truthy :: "optval \<Rightarrow> bool" where
  "truthy (OBool b) = b"
| "truthy (OStr s) = (s \<noteq> [])"
| "truthy (OList l) = (l \<noteq> [])"

definition get_opt :: "directive \<Rightarrow> string \<Rightarrow> bool \<Rightarrow> error + optval" where
  "get_opt self nm required =
     (let opt = (case options self nm of
                   None \<Rightarrow> config self nm
                 | Some v \<Rightarrow> if truthy v then v else config self nm)
      in if required \<and> \<not> truthy opt
         then Inl (AutoJSDocError ('':'' @ nm @ '': option required in directive (or set autojsdoc_''
                                    @ nm @ '' in conf.py).''))
         else Inr opt)"

text \<open>
  Class \<^verbatim>\<open>JSModule\<close>.  \<^verbatim>\<open>module.startswith\<close> raises \<^verbatim>\<open>AttributeError\<close> when the longname is
  \<^verbatim>\<open>None\<close>.  Both calls of \<^verbatim>\<open>get_opt\<close> leave \<^verbatim>\<open>required\<close> at \<^verbatim>\<open>False\<close>.
\<close>

definition JSModule_run ::
  "(addr \<Rightarrow> nat \<Rightarrow> error + line list) \<Rightarrow> nat \<Rightarrow> directive \<Rightarrow> doclet list \<Rightarrow> doclet \<Rightarrow> nat
     \<Rightarrow> error + line list" where
  "JSModule_run child_run depth directive heap self indent =
     (case get_longname self of
        None \<Rightarrow> Inl (AttributeError ''startswith'')
      | Some ln \<Rightarrow>
          (let module = (if prefix ''module:'' ln then drop 7 ln else ln)
           in do_all
                [Obj_append depth heap self (''.. js:module:: '' @ module) indent,
                 nl,
                 (case get_opt directive ''title'' False of
                    Inl e \<Rightarrow> Inl e
                  | Inr t \<Rightarrow>
                      if truthy t
                      then then_do (underscore depth heap self module (CHR ''-'') indent) nl
                      else Inr []),
                 append_desc depth heap self indent,
                 (case get_opt directive ''members'' False of
                    Inl e \<Rightarrow> Inl e
                  | Inr members \<Rightarrow>
                      then_do
                        (if members = OBool True then Obj_run child_run self indent else Inr [])
                        (case members of
                           OList l \<Rightarrow>
                             do_all (map (\<lambda>c. if (case get_name (heap ! c) of
                                                      None \<Rightarrow> False
                                                    | Some n \<Rightarrow> n \<in> set l)
                                               then child_run c indent else Inr [])
                                         (children self))
                         | _ \<Rightarrow> Inr []))]))"

text \<open>
  \<^verbatim>\<open>d.run (directive, indent)\<close> for the object at an address: the class is the one that
  \<^verbatim>\<open>obj_factory\<close> took from \<^verbatim>\<open>vtable\<close> for the kind, \<^verbatim>\<open>Obj\<close> for any other kind.  The first
  argument bounds the nesting of calls, as in \<open>source_line\<close>.
\<close>

fun render :: "nat \<Rightarrow> directive \<Rightarrow> doclet list \<Rightarrow> addr \<Rightarrow> nat \<Rightarrow> error + line list" where
  "render 0 directive heap a indent = Inl RecursionError"
| "render (Suc n) directive heap a indent =
     (let self = heap ! a;
          k = kind self
      in if k = ''class'' then JSClass_run (\<lambda>c i. render n directive heap c i) n heap self indent
         else if k = ''constant'' then JSConstant_run n directive heap self indent
         else if k = ''file'' then JSFile_run (\<lambda>c i. render n directive heap c i) n heap self indent
         else if k = ''function'' then JSFunction_run n directive heap self indent
         else if k = ''member'' then JSAttribute_run n directive heap self indent
         else if k = ''method'' then JSMethod_run n directive heap self indent
         else if k = ''module''
           then JSModule_run (\<lambda>c i. render n directive heap c i) n directive heap self indent
         else if k = ''package'' then JSPackage_run (\<lambda>c i. render n directive heap c i) self indent
         else Obj_run (\<lambda>c i. render n directive heap c i) self indent)"

section \<open>The directive\<close>

text \<open>
  \<^verbatim>\<open>obj_factory\<close> for a record with a \<^verbatim>\<open>kind\<close>: the constructor ends by resetting \<^verbatim>\<open>parent\<close> and
  \<^verbatim>\<open>children\<close>, whatever the record holds.
\<close>

definition obj_factory :: "doclet \<Rightarrow> doclet" where
  "obj_factory d = d\<lparr>parent := None, children := []\<rparr>"

text \<open>
  Lines 638 to 646 of \<^verbatim>\<open>run\<close>: load and cache the structure file, then read the cache.
  \<open>fs\<close> gives the content of the files that \<^verbatim>\<open>open\<close> finds.  The objects of a freshly loaded
  file take the addresses \<open>0\<close>, \<open>1\<close>, ... of a new store.
\<close>

definition load_structure ::
  "nat \<Rightarrow> (string \<rightharpoonup> file_content) \<Rightarrow> process \<Rightarrow> directive \<Rightarrow> string
     \<Rightarrow> error + (process \<times> directive \<times> doclet list)" where
  "load_structure depth fs proc self structure_json =
     (case (case loaded_structure_files proc structure_json of
              Some entry \<Rightarrow> Inr (proc, self)
            | None \<Rightarrow>
                (case fs structure_json of
                   None \<Rightarrow> Inl OSError
                 | Some content \<Rightarrow>
                     (let proc1 = proc\<lparr>record_dependencies :=
                                         insert structure_json (record_dependencies proc)\<rparr>
                      in case content of
                           NotJSON \<Rightarrow> Inl JSONDecodeError
                         | Records rs \<Rightarrow>
                             (case merge_doclets depth self (map obj_factory rs)
                                     (error_log proc1) [0..<length rs] of
                                Inl e \<Rightarrow> Inl e
                              | Inr (self1, heap1, log1, tr) \<Rightarrow>
                                  Inr (proc1\<lparr>loaded_structure_files :=
                                               (loaded_structure_files proc1)
                                                 (structure_json \<mapsto> (heap1, tr)),
                                             error_log := log1\<rparr>,
                                       self1))))) of
        Inl e \<Rightarrow> Inl e
      | Inr (proc2, self2) \<Rightarrow>
          (case loaded_structure_files proc2 structure_json of
             None \<Rightarrow> Inl (KeyError structure_json)
           | Some (heap, (merged, ns, lns)) \<Rightarrow>
               Inr (proc2, self2\<lparr>doclets := merged, names := ns, longnames := lns\<rparr>, heap)))"

text \<open>
  The generator of lines 654 to 659, consumed by \<^verbatim>\<open>sorted\<close>: each selected doclet with its
  longname, the sort key.  \<open>search\<close> is \<^verbatim>\<open>rex.search\<close>, which raises \<^verbatim>\<open>TypeError\<close> when it is
  given \<^verbatim>\<open>None\<close>; \<^verbatim>\<open>and\<close> evaluates it only for a doclet of the right kind.
\<close>

fun grep_doclets ::
  "(string \<Rightarrow> bool) \<Rightarrow> doclet list \<Rightarrow> string \<Rightarrow> string set \<Rightarrow> addr list
     \<Rightarrow> error + (string \<times> addr) list" where
  "grep_doclets search heap objtype visited [] = Inr []"
| "grep_doclets search heap objtype visited (a # as) =
     (let d = heap ! a
      in if kind d = objtype
         then (case longname d of
                 None \<Rightarrow> Inl TypeError
               | Some ln \<Rightarrow>
                   if search ln \<and> ln \<notin> visited
                   then (case grep_doclets search heap objtype visited as of
                           Inl e \<Rightarrow> Inl e
                         | Inr r \<Rightarrow> Inr ((ln, a) # r))
                   else grep_doclets search heap objtype visited as)
         else grep_doclets search heap objtype visited as)"

text \<open>
  The loop of lines 661 to 663 over the sorted doclets.  The state is \<^verbatim>\<open>visited\<close>,
  \<^verbatim>\<open>self.content\<close>, and the addresses of the doclets on which \<^verbatim>\<open>d.run (self, 0)\<close> has been
  called so far, in the order of the calls (kept for the statements about that order).
\<close>

fun run_sorted ::
  "nat \<Rightarrow> directive \<Rightarrow> doclet list \<Rightarrow> (string \<times> addr) list
     \<Rightarrow> string set \<times> line list \<times> addr list \<Rightarrow> error + (string set \<times> line list \<times> addr list)" where
  "run_sorted depth self heap [] s = Inr s"
| "run_sorted depth self heap ((ln, a) # ds) (visited, content, calls) =
     (case render depth self heap a 0 of
        Inl e \<Rightarrow> Inl e
      | Inr ls \<Rightarrow> run_sorted depth self heap ds (insert ln visited, content @ ls, calls @ [a]))"

text \<open>
  The loop of lines 650 to 663 over the arguments.  \<open>rex\<close> is \<^verbatim>\<open>re.compile\<close>: the search
  function of the pattern, or \<open>None\<close> when the pattern does not compile.  \<^verbatim>\<open>sorted\<close> is stable,
  and so is \<open>sort_key\<close>; strings are compared code point by code point.
\<close>

fun run_arguments ::
  "nat \<Rightarrow> (string \<Rightarrow> (string \<Rightarrow> bool) option) \<Rightarrow> directive \<Rightarrow> doclet list \<Rightarrow> string
     \<Rightarrow> string list \<Rightarrow> string set \<times> line list \<times> addr list
     \<Rightarrow> error + (string set \<times> line list \<times> addr list)" where
  "run_arguments depth rex self heap objtype [] s = Inr s"
| "run_arguments depth rex self heap objtype (argument # rest) (visited, content, calls) =
     (case rex argument of
        None \<Rightarrow> Inl ReError
      | Some search \<Rightarrow>
          (case grep_doclets search heap objtype visited (doclets self) of
             Inl e \<Rightarrow> Inl e
           | Inr ds \<Rightarrow>
               (case run_sorted depth self heap (sort_key fst ds) (visited, content, calls) of
                  Inl e \<Rightarrow> Inl e
                | Inr s \<Rightarrow> run_arguments depth rex self heap objtype rest s)))"

text \<open>
  \<^verbatim>\<open>AutoDirective.run\<close> up to the buffer \<^verbatim>\<open>self.content\<close> that it hands to
  \<^verbatim>\<open>nested_parse_with_titles\<close>; parsing the buffer is the host's part.  An \<^verbatim>\<open>AutoJSDocError\<close>
  raised inside the \<^verbatim>\<open>try\<close> block is logged; every other exception leaves \<^verbatim>\<open>run\<close>.
\<close>

definition run ::
  "nat \<Rightarrow> (string \<Rightarrow> (string \<Rightarrow> bool) option) \<Rightarrow> (string \<rightharpoonup> file_content) \<Rightarrow> process
     \<Rightarrow> directive \<Rightarrow> error + (process \<times> directive \<times> line list)" where
  "run depth rex fs proc self0 =
     (let self = self0\<lparr>doclets := [], names := Map.empty, longnames := Map.empty\<rparr>
      in case get_opt self ''structure_json'' True of
           Inl e \<Rightarrow> Inl e
         | Inr opt \<Rightarrow>
             (case opt of
                OStr structure_json \<Rightarrow>
                  (let objtype = strip_directive (directive_name self)
                   in case load_structure depth fs proc self structure_json of
                        Inl e \<Rightarrow> Inl e
                      | Inr (proc1, self1, heap) \<Rightarrow>
                          (case run_arguments depth rex self1 heap objtype (arguments self1)
                                  ({}, [], []) of
                             Inl (AutoJSDocError msg) \<Rightarrow>
                               Inr (proc1\<lparr>error_log := error_log proc1 @
                                       [(''Error in '' @ [CHR 0x22] @ directive_name self1 @ [CHR 0x22]
                                           @ '' directive: '' @ msg @ ''.'', None)]\<rparr>,
                                    self1, [])
                           | Inl e \<Rightarrow> Inl e
                           | Inr (visited, content, calls) \<Rightarrow> Inr (proc1, self1, content)))
              | _ \<Rightarrow> Inl TypeError))"

section \<open>Notions used in the statements\<close>

text \<open>
  The record at address \<open>a\<close> is the first one of the store with its longname: no earlier
  address holds a record of the same longname.
\<close>

definition first_seen :: "doclet list \<Rightarrow> addr \<Rightarrow> bool" where
  "first_seen h0 a = (\<forall>j<a. longname (h0 ! j) \<noteq> longname (h0 ! a))"

text \<open>
  The invariant of the merge loop after the addresses below \<open>k\<close> of the store \<open>h0\<close> of freshly
  built objects: the index holds the first address of every longname seen, \<open>merged\<close> lists
  these addresses in order, a kept doclet carries the conjunction of the flags folded into
  it, and the objects not yet reached are untouched.
\<close>

definition merge_inv :: "doclet list \<Rightarrow> nat \<Rightarrow> directive \<times> doclet list \<times> addr list \<Rightarrow> bool" where
  "merge_inv h0 k s =
     (case s of (self, heap, merged) \<Rightarrow>
        length heap = length h0 \<and>
        (\<forall>a. longname (heap ! a) = longname (h0 ! a) \<and> parent (heap ! a) = parent (h0 ! a) \<and>
             memberof (heap ! a) = memberof (h0 ! a)) \<and>
        (\<forall>a\<ge>k. heap ! a = h0 ! a) \<and>
        (\<forall>key a. longnames self key = Some a \<longleftrightarrow>
             a < k \<and> longname (h0 ! a) = key \<and> first_seen h0 a) \<and>
        merged = filter (first_seen h0) [0..<k] \<and>
        (\<forall>a<k. first_seen h0 a \<longrightarrow>
             undocumented (heap ! a) =
               (\<forall>j<k. longname (h0 ! j) = longname (h0 ! a) \<longrightarrow> undocumented (h0 ! j))))"

text \<open>Two states of an object that differ at most in \<^verbatim>\<open>parent\<close> and \<^verbatim>\<open>children\<close>.\<close>

definition same_static :: "doclet \<Rightarrow> doclet \<Rightarrow> bool" where
  "same_static d d' = (d'\<lparr>parent := parent d, children := children d\<rparr> = d)"

text \<open>The \<^verbatim>\<open>memberof\<close> of the object at \<open>a\<close> is a longname that the index does not have.\<close>

definition unresolved :: "directive \<Rightarrow> doclet list \<Rightarrow> addr \<Rightarrow> bool" where
  "unresolved self heap a =
     (case memberof (heap ! a) of None \<Rightarrow> False | Some m \<Rightarrow> longnames self (Some m) = None)"

text \<open>
  The source location of an object taken from the object alone: its \<^verbatim>\<open>meta\<close>, or the
  sentinel for an object without \<^verbatim>\<open>meta\<close>.
\<close>

definition own_location :: "'a Obj_scheme \<Rightarrow> string" where
  "own_location self =
     (case meta self of
        None \<Rightarrow> ''<unknown>:0''
      | Some m \<Rightarrow> os_path_join (path m) (filename m) @ '':'' @ str_int (lineno m))"

text \<open>
  The error reports that the link pass owes to the object at \<open>a\<close>: one, carrying its own
  location, when its \<^verbatim>\<open>memberof\<close> is unresolved and it is documented, none otherwise.
\<close>

definition link_reports :: "directive \<Rightarrow> doclet list \<Rightarrow> addr \<Rightarrow> log_entry list" where
  "link_reports self heap a =
     (case memberof (heap ! a) of
        None \<Rightarrow> []
      | Some m \<Rightarrow>
          if longnames self (Some m) \<noteq> None \<or> undocumented (heap ! a) then []
          else [(if m = ''<anonymous>'' then anonymous_msg (longname (heap ! a)) m
                 else link_msg (longname (heap ! a)) m,
                 Some (own_location (heap ! a)))])"

text \<open>Every entry of the cache holds two empty indexes.\<close>

definition empty_indexes_cached :: "process \<Rightarrow> bool" where
  "empty_indexes_cached proc =
     (\<forall>p heap merged ns lns.
        loaded_structure_files proc p = Some (heap, (merged, ns, lns)) \<longrightarrow>
        ns = Map.empty \<and> lns = Map.empty)"

section \<open>Example data\<close>

text \<open>A record that holds nothing but a \<^verbatim>\<open>kind\<close>, with the defaults of the constructors.\<close>

definition default_doclet :: "string \<Rightarrow> doclet" where
  "default_doclet k =
     \<lparr>ignore = False, undocumented = False, longname = None, name = None, memberof = None,
      description = [], comment = None, meta = None, parent = None, children = [],
      type_names = [], kind = k, params = [], returns = [], files = []\<rparr>"

definition ex_meta :: "int \<Rightarrow> meta" where
  "ex_meta n = \<lparr>path = ''/src'', filename = ''a.js'', lineno = n, code_value = None\<rparr>"

text \<open>A directive \<^verbatim>\<open>js:autoclass\<close> without options, under the default configuration.\<close>

definition ex_directive :: directive where
  "ex_directive =
     \<lparr>directive_name = ''js:autoclass'', arguments = [], options = Map.empty,
      config = (\<lambda>nm. if nm = ''structure_json'' then OStr [] else OBool False),
      doclets = [], names = Map.empty, longnames = Map.empty\<rparr>"

text \<open>The documentation view and the compiler view of one function, and a class.\<close>

definition ex_foo_doc :: doclet where
  "ex_foo_doc = (default_doclet ''function'')
     \<lparr>longname := Some ''foo'', name := Some ''foo'', description := ''Doc.'',
      comment := Some ''/** Doc. */'', meta := Some (ex_meta 3)\<rparr>"

definition ex_foo_code :: doclet where
  "ex_foo_code = (default_doclet ''function'')
     \<lparr>longname := Some ''foo'', name := Some ''foo'', undocumented := True,
      comment := Some [], meta := Some (ex_meta 4)\<rparr>"

definition ex_bar :: doclet where
  "ex_bar = (default_doclet ''class'')\<lparr>longname := Some ''bar'', name := Some ''bar''\<rparr>"

text \<open>Doclets for the link pass: two whose parent is not in the structure file, an
  undocumented one of the same sort, and a method of the class \<^verbatim>\<open>bar\<close>.\<close>

definition ex_orphan :: doclet where
  "ex_orphan = (default_doclet ''method'')
     \<lparr>longname := Some ''A.m'', name := Some ''m'', memberof := Some ''A'',
      meta := Some (ex_meta 7)\<rparr>"

definition ex_anon :: doclet where
  "ex_anon = (default_doclet ''function'')
     \<lparr>longname := Some ''<anonymous>~f'', name := Some ''f'', memberof := Some ''<anonymous>''\<rparr>"

definition ex_hidden :: doclet where
  "ex_hidden = (default_doclet ''member'')
     \<lparr>undocumented := True, longname := Some ''B.x'', name := Some ''x'', memberof := Some ''B''\<rparr>"

definition ex_child :: doclet where
  "ex_child = (default_doclet ''method'')
     \<lparr>longname := Some ''bar.m'', name := Some ''m'', memberof := Some ''bar''\<rparr>"

text \<open>The records of a structure file for the link pass, and what the forest builder makes of them.\<close>

definition ex_link_records :: "doclet list" where
  "ex_link_records = [ex_bar, ex_orphan, ex_anon, ex_hidden, ex_child]"

definition ex_link_self :: directive where
  "ex_link_self = ex_directive
     \<lparr>names := [Some ''bar'' \<mapsto> 0, Some ''m'' \<mapsto> 1, Some ''f'' \<mapsto> 2, Some ''x'' \<mapsto> 3, Some ''m'' \<mapsto> 4],
      longnames := [Some ''bar'' \<mapsto> 0, Some ''A.m'' \<mapsto> 1, Some ''<anonymous>~f'' \<mapsto> 2,
                    Some ''B.x'' \<mapsto> 3, Some ''bar.m'' \<mapsto> 4]\<rparr>"

definition ex_link_heap :: "doclet list" where
  "ex_link_heap =
     [ex_bar\<lparr>children := [4]\<rparr>, ex_orphan, ex_anon, ex_hidden, ex_child\<lparr>parent := Some 0\<rparr>]"

text \<open>
  A function \<^verbatim>\<open>foo\<close> and a class \<^verbatim>\<open>lib.foo\<close> whose short name is \<^verbatim>\<open>foo\<close> too, with the indexes that
  the merge pass builds for them.
\<close>

definition ex_xref_heap :: "doclet list" where
  "ex_xref_heap =
     [(default_doclet ''function'')\<lparr>longname := Some ''foo'', name := Some ''foo''\<rparr>,
      (default_doclet ''class'')\<lparr>longname := Some ''lib.foo'', name := Some ''foo''\<rparr>]"

definition ex_xref_self :: directive where
  "ex_xref_self = ex_directive
     \<lparr>names := [Some ''foo'' \<mapsto> 1],
      longnames := [Some ''foo'' \<mapsto> 0, Some ''lib.foo'' \<mapsto> 1]\<rparr>"

text \<open>A parameter of type \<^verbatim>\<open>Array\<close> or \<^verbatim>\<open>null\<close>.\<close>

definition ex_param :: param where
  "ex_param = \<lparr>p_name = Some ''items'', p_type_names = [''Array'', ''null''],
               p_description = ''The  items.'', p_meta = None\<rparr>"




text \<open>
  A process that has loaded nothing yet, a file system with one structure file, and the
  process after the first directive has loaded that file.
\<close>

definition ex_process :: process where
  "ex_process = \<lparr>loaded_structure_files = Map.empty, error_log = [], record_dependencies = {}\<rparr>"

definition ex_fs :: "string \<rightharpoonup> file_content" where
  "ex_fs = [''structure.json'' \<mapsto> Records ex_link_records]"

definition ex_link_log :: "log_entry list" where
  "ex_link_log =
     [(''Could not link up object A.m to A'', Some ''/src/a.js:7''),
      (anonymous_msg (Some ''<anonymous>~f'') ''<anonymous>'', Some ''<unknown>:0'')]"

definition ex_process_loaded :: process where
  "ex_process_loaded =
     \<lparr>loaded_structure_files =
        [''structure.json'' \<mapsto> (ex_link_heap, ([0, 1, 2, 3, 4], Map.empty, Map.empty))],
      error_log = ex_link_log, record_dependencies = {''structure.json''}\<rparr>"









section \<open>Proofs: forest builder\<close>

lemma fold_into_fields:
  "fold_into l d = Inr l' \<Longrightarrow>
     undocumented l' = (undocumented l \<and> undocumented d) \<and> longname l' = longname l \<and>
     name l' = name l \<and> memberof l' = memberof l \<and> parent l' = parent l \<and>
     children l' = children l \<and> kind l' = kind l"
  by (auto simp: fold_into_def Let_def split: option.splits)

lemma first_seen_exists:
  "\<exists>i\<le>a. longname (h0 ! i) = longname (h0 ! a) \<and> first_seen h0 i"
proof (induction a rule: less_induct)
  case (less a)
  show ?case
  proof (cases "first_seen h0 a")
    case True
    then show ?thesis by auto
  next
    case False
    then obtain j where j: "j < a" "longname (h0 ! j) = longname (h0 ! a)"
      by (auto simp: first_seen_def)
    from less[OF j(1)] obtain i
      where "i \<le> j" "longname (h0 ! i) = longname (h0 ! j)" "first_seen h0 i"
      by auto
    with j show ?thesis by (intro exI[of _ i]) auto
  qed
qed

lemma first_seen_unique:
  "first_seen h0 a \<Longrightarrow> first_seen h0 b \<Longrightarrow> longname (h0 ! a) = longname (h0 ! b) \<Longrightarrow> a = b"
  unfolding first_seen_def by (metis linorder_neqE_nat)

lemma merge_step_inv:
  assumes inv: "merge_inv h0 k s" and k: "k < length h0" and st: "merge_step s k = Inr s'"
  shows "merge_inv h0 (Suc k) s'"
proof -
  obtain self heap merged where s: "s = (self, heap, merged)" by (cases s)
  from inv s have len: "length heap = length h0"
    and same: "\<And>a. longname (heap ! a) = longname (h0 ! a)"
              "\<And>a. parent (heap ! a) = parent (h0 ! a)"
              "\<And>a. memberof (heap ! a) = memberof (h0 ! a)"
    and rest: "\<And>a. k \<le> a \<Longrightarrow> heap ! a = h0 ! a"
    and idx: "\<And>key a. longnames self key = Some a \<longleftrightarrow>
                a < k \<and> longname (h0 ! a) = key \<and> first_seen h0 a"
    and mer: "merged = filter (first_seen h0) [0..<k]"
    and und: "\<And>a. a < k \<Longrightarrow> first_seen h0 a \<Longrightarrow>
        undocumented (heap ! a) =
          (\<forall>j<k. longname (h0 ! j) = longname (h0 ! a) \<longrightarrow> undocumented (h0 ! j))"
    by (auto simp: merge_inv_def)
  have hk: "heap ! k = h0 ! k" using rest by simp
  show ?thesis
  proof (cases "longnames self (longname (h0 ! k))")
    case None
    then have fs: "first_seen h0 k"
      using idx first_seen_exists[of k h0]
      by (metis le_neq_implies_less not_Some_eq)
    from None st s hk
    have s': "s' = (self\<lparr>longnames := (longnames self)(longname (h0 ! k) \<mapsto> k),
                        names := (names self)(name (h0 ! k) \<mapsto> k)\<rparr>, heap, merged @ [k])"
      by (auto simp: check_params_def Let_def)
    have "\<And>key a. ((longnames self)(longname (h0 ! k) \<mapsto> k)) key = Some a \<longleftrightarrow>
            a < Suc k \<and> longname (h0 ! a) = key \<and> first_seen h0 a"
      using idx fs None by (auto simp: less_Suc_eq dest: first_seen_unique)
    moreover have "\<And>a. a < Suc k \<Longrightarrow> first_seen h0 a \<Longrightarrow>
        undocumented (heap ! a) =
          (\<forall>j<Suc k. longname (h0 ! j) = longname (h0 ! a) \<longrightarrow> undocumented (h0 ! j))"
      using und fs hk by (auto simp: less_Suc_eq first_seen_def)
    ultimately show ?thesis
      unfolding s' merge_inv_def using len same rest mer fs by simp
  next
    case (Some l)
    then have l: "l < k" "longname (h0 ! l) = longname (h0 ! k)" "first_seen h0 l"
      using idx by auto
    then have nfs: "\<not> first_seen h0 k" by (auto simp: first_seen_def)
    from Some st s hk l obtain d' where f: "fold_into (heap ! l) (h0 ! k) = Inr d'"
      and s': "s' = (self, heap[l := d'], merged)"
      by (auto simp: Let_def split: sum.splits)
    note ff = fold_into_fields[OF f]
    have ll: "l < length heap" using l k len by simp
    have "\<And>a. a < Suc k \<Longrightarrow> first_seen h0 a \<Longrightarrow>
        undocumented (heap[l := d'] ! a) =
          (\<forall>j<Suc k. longname (h0 ! j) = longname (h0 ! a) \<longrightarrow> undocumented (h0 ! j))"
    proof -
      fix a assume a: "a < Suc k" "first_seen h0 a"
      then have ak: "a < k" using nfs by (cases "a = k") auto
      show "undocumented (heap[l := d'] ! a) =
          (\<forall>j<Suc k. longname (h0 ! j) = longname (h0 ! a) \<longrightarrow> undocumented (h0 ! j))"
      proof (cases "a = l")
        case True
        then show ?thesis using ff und[OF l(1) l(3)] l ll by (auto simp: less_Suc_eq)
      next
        case False
        then have "longname (h0 ! a) \<noteq> longname (h0 ! k)"
          using first_seen_unique[OF a(2) l(3)] l by auto
        then show ?thesis using False und[OF ak a(2)] by (auto simp: less_Suc_eq)
      qed
    qed
    moreover have "\<And>a. longname (heap[l := d'] ! a) = longname (h0 ! a) \<and>
          parent (heap[l := d'] ! a) = parent (h0 ! a) \<and>
          memberof (heap[l := d'] ! a) = memberof (h0 ! a)"
      using same ff ll by (auto simp: nth_list_update)
    moreover have "\<And>a. Suc k \<le> a \<Longrightarrow> heap[l := d'] ! a = h0 ! a"
      using rest l by (auto simp: nth_list_update)
    moreover have "\<And>key a. longnames self key = Some a \<longleftrightarrow>
          a < Suc k \<and> longname (h0 ! a) = key \<and> first_seen h0 a"
      using idx nfs by (auto simp: less_Suc_eq)
    ultimately show ?thesis
      unfolding s' merge_inv_def using len mer nfs by simp
  qed
qed

lemma merge_loop_inv:
  "merge_inv h0 k s \<Longrightarrow> k \<le> n \<Longrightarrow> n \<le> length h0 \<Longrightarrow> merge_loop s [k..<n] = Inr s'
     \<Longrightarrow> merge_inv h0 n s'"
proof (induction "n - k" arbitrary: k s)
  case 0
  then show ?case by simp
next
  case (Suc d)
  then have kn: "k < n" by simp
  then have upt: "[k..<n] = k # [Suc k..<n]" by (simp add: upt_conv_Cons)
  from Suc.prems(4) upt obtain s1 where s1: "merge_step s k = Inr s1"
    and rest: "merge_loop s1 [Suc k..<n] = Inr s'"
    by (auto split: sum.splits)
  have "merge_inv h0 (Suc k) s1"
    using merge_step_inv[OF Suc.prems(1) _ s1] kn Suc.prems(3) by simp
  moreover have "d = n - Suc k" using Suc.hyps(2) by simp
  ultimately show ?case using Suc.hyps(1)[of "Suc k" s1] rest kn Suc.prems(3) by simp
qed

lemma merge_inv_init:
  "merge_inv h0 0 (self\<lparr>names := Map.empty, longnames := Map.empty\<rparr>, h0, [])"
  by (simp add: merge_inv_def)

lemma merge_loop_fresh:
  assumes "merge_loop (self\<lparr>names := Map.empty, longnames := Map.empty\<rparr>, h0, []) [0..<length h0]
             = Inr s'"
  shows "merge_inv h0 (length h0) s'"
  using merge_loop_inv[OF merge_inv_init _ _ assms] by simp

lemma str_int_0: "str_int 0 = ''0''"
  by (simp add: str_int_def str_nat.simps digit_char_def)

lemma Obj_error_root:
  "parent self = None \<Longrightarrow> Obj_error depth heap self msg = Inr e
     \<Longrightarrow> e = (msg, Some (own_location self))"
  by (cases depth; cases "meta self")
     (auto simp: Obj_error_def get_source_line_def own_location_def str_int_0)

lemma nth_update_field: "f x = f (xs ! i) \<Longrightarrow> f (xs[i := x] ! j) = f (xs ! j)"
  by (cases "i < length xs") (auto simp: nth_list_update list_update_beyond)

lemma same_static_refl: "same_static d d"
  by (simp add: same_static_def)

lemma same_static_trans: "same_static d e \<Longrightarrow> same_static e f \<Longrightarrow> same_static d f"
  by (cases d; cases e; cases f) (auto simp: same_static_def)

lemma same_static_update: "same_static (xs ! i) d \<Longrightarrow> same_static (xs ! j) (xs[i := d] ! j)"
  by (cases "i < length xs")
     (auto simp: nth_list_update list_update_beyond same_static_refl)

lemma same_static_parent: "same_static d (d\<lparr>parent := p\<rparr>)"
  by (cases d) (simp add: same_static_def)

lemma same_static_children: "same_static d (d\<lparr>children := c\<rparr>)"
  by (cases d) (simp add: same_static_def)

lemma same_static_fields:
  "same_static d e \<Longrightarrow> longname e = longname d \<and> undocumented e = undocumented d \<and>
     memberof e = memberof d \<and> meta e = meta d \<and> name e = name d \<and> kind e = kind d"
  by (cases d; cases e) (auto simp: same_static_def)

lemma link_step_props:
  assumes "link_step depth self (heap, log) a = Inr (heap', log')"
  shows "length heap' = length heap"
    and "\<And>x. same_static (heap ! x) (heap' ! x)"
    and "\<And>x. x \<noteq> a \<or> unresolved self heap a \<or> memberof (heap ! a) = None
            \<Longrightarrow> parent (heap' ! x) = parent (heap ! x)"
    and "unresolved self heap a \<longrightarrow> parent (heap ! a) = None
            \<Longrightarrow> log' = log @ link_reports self heap a"
proof -
  show "length heap' = length heap"
    using assms by (auto simp: Let_def split: option.splits if_splits sum.splits)
  show "\<And>x. same_static (heap ! x) (heap' ! x)"
    using assms
    by (auto simp: Let_def same_static_refl same_static_parent same_static_children
             split: option.splits if_splits sum.splits
             intro!: same_static_trans[OF same_static_update same_static_update])
  show "\<And>x. x \<noteq> a \<or> unresolved self heap a \<or> memberof (heap ! a) = None
            \<Longrightarrow> parent (heap' ! x) = parent (heap ! x)"
    using assms
    by (auto simp: Let_def unresolved_def nth_update_field[where f=parent] nth_list_update
             split: option.splits if_splits sum.splits)
  show "unresolved self heap a \<longrightarrow> parent (heap ! a) = None
            \<Longrightarrow> log' = log @ link_reports self heap a"
    using assms
    by (auto simp: Let_def unresolved_def link_reports_def doc_def
             split: option.splits if_splits sum.splits dest: Obj_error_root)
qed


lemma unresolved_static:
  "same_static (h ! a) (h' ! a) \<Longrightarrow> unresolved self h' a = unresolved self h a"
  by (drule same_static_fields) (auto simp: unresolved_def split: option.splits)

lemma make_forest_static:
  assumes "make_forest depth self (heap, log) as = Inr (heap', log')"
  shows "length heap' = length heap \<and>
         (\<forall>x. same_static (heap ! x) (heap' ! x)) \<and>
         (\<forall>x. unresolved self heap x \<or> memberof (heap ! x) = None
              \<longrightarrow> parent (heap' ! x) = parent (heap ! x))"
  using assms
proof (induction as arbitrary: heap log)
  case Nil
  then show ?case by (simp add: same_static_refl)
next
  case (Cons a as)
  from Cons.prems(1) obtain h1 l1 where st: "link_step depth self (heap, log) a = Inr (h1, l1)"
    and rest: "make_forest depth self (h1, l1) as = Inr (heap', log')"
    by (auto split: sum.splits)
  note p = link_step_props(1-3)[OF st]
  have un: "\<And>x. unresolved self h1 x = unresolved self heap x"
    using p(2) by (simp add: unresolved_static)
  have mo: "\<And>x. memberof (h1 ! x) = memberof (heap ! x)"
    using p(2) same_static_fields by blast
  have par: "\<And>x. unresolved self heap x \<or> memberof (heap ! x) = None
               \<Longrightarrow> parent (h1 ! x) = parent (heap ! x)"
  proof -
    fix x assume x: "unresolved self heap x \<or> memberof (heap ! x) = None"
    show "parent (h1 ! x) = parent (heap ! x)"
      by (rule p(3)) (use x in auto)
  qed
  from Cons.IH[OF rest]
  have ih: "length heap' = length h1" "\<And>x. same_static (h1 ! x) (heap' ! x)"
    "\<And>x. unresolved self h1 x \<or> memberof (h1 ! x) = None
        \<Longrightarrow> parent (heap' ! x) = parent (h1 ! x)"
    by auto
  have "length heap' = length heap" using ih(1) p(1) by simp
  moreover have "\<forall>x. same_static (heap ! x) (heap' ! x)"
    using p(2) ih(2) same_static_trans by blast
  moreover have "\<forall>x. unresolved self heap x \<or> memberof (heap ! x) = None
                    \<longrightarrow> parent (heap' ! x) = parent (heap ! x)"
    using ih(3) par un mo by simp
  ultimately show ?case by blast
qed


lemma distinct_first_seen:
  "distinct (map (\<lambda>a. longname (h0 ! a)) (filter (first_seen h0) [0..<n]))"
proof -
  have "inj_on (\<lambda>a. longname (h0 ! a)) (set (filter (first_seen h0) [0..<n]))"
    by (auto simp: inj_on_def dest: first_seen_unique)
  then show ?thesis by (simp add: distinct_map)
qed

lemma merge_doclets_fresh:
  assumes "merge_doclets depth (self\<lparr>names := Map.empty, longnames := Map.empty\<rparr>) heap log
             [0..<length heap] = Inr (self', heap', log', (merged, ns, lns))"
  obtains heap1 where "merge_inv heap (length heap) (self', heap1, merged)"
    and "make_forest depth self' (heap1, log) merged = Inr (heap', log')"
  using assms merge_loop_fresh[of self heap]
  by (auto simp: merge_doclets_def split: sum.splits)

section \<open>Claims about the forest builder\<close>

text \<open>
  Claim C1.  \<^verbatim>\<open>run\<close> calls \<^verbatim>\<open>merge_doclets\<close> on the objects of a freshly loaded file, which
  take the addresses \<open>0\<close>, \<open>1\<close>, ... of the store, with both indexes of the directive empty.
  Whenever the merge pass returns, the kept doclets are exactly the first records of their
  longname, in input order; no two kept doclets share a longname; no object is created and
  no longname changes; and the longname index maps a key to an address exactly when that
  address holds the first record with that longname.  So every later record of a longname
  was folded into the kept one.
\<close>

theorem merge_doclets_longname_unique:
  "merge_doclets depth (self\<lparr>names := Map.empty, longnames := Map.empty\<rparr>) heap log
       [0..<length heap] = Inr (self', heap', log', (merged, ns, lns)) \<Longrightarrow>
   length heap' = length heap \<and>
   merged = filter (first_seen heap) [0..<length heap] \<and>
   distinct (map (\<lambda>a. longname (heap' ! a)) merged) \<and>
   (\<forall>a. longname (heap' ! a) = longname (heap ! a)) \<and>
   (\<forall>key a. longnames self' key = Some a \<longleftrightarrow>
       a < length heap \<and> longname (heap ! a) = key \<and> first_seen heap a)"
proof -
  assume a: "merge_doclets depth (self\<lparr>names := Map.empty, longnames := Map.empty\<rparr>) heap log
       [0..<length heap] = Inr (self', heap', log', (merged, ns, lns))"
  from a obtain heap1 where inv: "merge_inv heap (length heap) (self', heap1, merged)"
    and mf: "make_forest depth self' (heap1, log) merged = Inr (heap', log')"
    by (rule merge_doclets_fresh)
  from make_forest_static[OF mf]
  have len: "length heap' = length heap1" and st: "\<And>x. same_static (heap1 ! x) (heap' ! x)"
    by auto
  have ln: "\<And>x. longname (heap' ! x) = longname (heap ! x)"
    using same_static_fields[OF st] inv by (simp add: merge_inv_def)
  have mer: "merged = filter (first_seen heap) [0..<length heap]"
    using inv by (simp add: merge_inv_def)
  have "distinct (map (\<lambda>a. longname (heap' ! a)) merged)"
    using distinct_first_seen[of heap "length heap"] by (simp add: ln mer)
  then show ?thesis
    using len ln mer inv by (simp add: merge_inv_def)
qed

lemma upt_3: "[0..<3] = [0, 1, 2]"
  by (simp add: upt_rec)

lemma ex_merge_eval:
  "merge_doclets 1 (ex_directive\<lparr>names := Map.empty, longnames := Map.empty\<rparr>)
       [ex_foo_doc, ex_foo_code, ex_bar] [] [0..<length [ex_foo_doc, ex_foo_code, ex_bar]]
     = Inr (ex_directive\<lparr>names := [Some ''foo'' \<mapsto> 0, Some ''bar'' \<mapsto> 2],
                         longnames := [Some ''foo'' \<mapsto> 0, Some ''bar'' \<mapsto> 2]\<rparr>,
            [ex_foo_doc\<lparr>meta := Some (ex_meta 4)\<rparr>, ex_foo_code, ex_bar], [],
            ([0, 2], Map.empty, Map.empty))"
  by (simp add: merge_doclets_def upt_3 fold_into_def check_params_def ex_directive_def
        ex_foo_doc_def ex_foo_code_def ex_bar_def default_doclet_def numeral_2_eq_2)

theorem merge_doclets_longname_unique_witness:
  "merge_doclets 1 (ex_directive\<lparr>names := Map.empty, longnames := Map.empty\<rparr>)
       [ex_foo_doc, ex_foo_code, ex_bar] [] [0..<length [ex_foo_doc, ex_foo_code, ex_bar]]
     = Inr (ex_directive\<lparr>names := [Some ''foo'' \<mapsto> 0, Some ''bar'' \<mapsto> 2],
                         longnames := [Some ''foo'' \<mapsto> 0, Some ''bar'' \<mapsto> 2]\<rparr>,
            [ex_foo_doc\<lparr>meta := Some (ex_meta 4)\<rparr>, ex_foo_code, ex_bar], [],
            ([0, 2], Map.empty, Map.empty)) \<and>
   [0, 2] = filter (first_seen [ex_foo_doc, ex_foo_code, ex_bar])
              [0..<length [ex_foo_doc, ex_foo_code, ex_bar]] \<and>
   distinct (map (\<lambda>a. longname ([ex_foo_doc\<lparr>meta := Some (ex_meta 4)\<rparr>, ex_foo_code, ex_bar] ! a))
                 [0, 2])"
  using merge_doclets_longname_unique[OF ex_merge_eval] ex_merge_eval by blast

text \<open>
  Claim C2.  Whenever the merge pass returns, the \<^verbatim>\<open>undocumented\<close> flag of every kept doclet is
  the conjunction of the flags of all the records of the input that carry its longname; for
  two records of one longname it is the logical AND of their two flags, so one documented
  record makes the merged doclet documented.
\<close>

theorem merge_doclets_undocumented_and:
  "merge_doclets depth (self\<lparr>names := Map.empty, longnames := Map.empty\<rparr>) heap log
       [0..<length heap] = Inr (self', heap', log', (merged, ns, lns)) \<Longrightarrow>
   a \<in> set merged \<Longrightarrow>
   undocumented (heap' ! a) =
     (\<forall>j<length heap. longname (heap ! j) = longname (heap ! a) \<longrightarrow> undocumented (heap ! j))"
proof -
  assume a: "merge_doclets depth (self\<lparr>names := Map.empty, longnames := Map.empty\<rparr>) heap log
       [0..<length heap] = Inr (self', heap', log', (merged, ns, lns))"
    and m: "a \<in> set merged"
  from a obtain heap1 where inv: "merge_inv heap (length heap) (self', heap1, merged)"
    and mf: "make_forest depth self' (heap1, log) merged = Inr (heap', log')"
    by (rule merge_doclets_fresh)
  from make_forest_static[OF mf]
  have st: "\<And>x. same_static (heap1 ! x) (heap' ! x)"
    by auto
  have "a < length heap" "first_seen heap a"
    using inv m by (auto simp: merge_inv_def)
  then have "undocumented (heap1 ! a) =
     (\<forall>j<length heap. longname (heap ! j) = longname (heap ! a) \<longrightarrow> undocumented (heap ! j))"
    using inv by (simp add: merge_inv_def)
  then show ?thesis using same_static_fields[OF st] by simp
qed

lemma ex_pair_eval:
  "merge_doclets 1 (ex_directive\<lparr>names := Map.empty, longnames := Map.empty\<rparr>)
       [ex_foo_code, ex_foo_doc] [] [0..<length [ex_foo_code, ex_foo_doc]]
     = Inr (ex_directive\<lparr>names := [Some ''foo'' \<mapsto> 0], longnames := [Some ''foo'' \<mapsto> 0]\<rparr>,
            [ex_foo_doc, ex_foo_doc], [],
            ([0], Map.empty, Map.empty))"
  by (simp add: merge_doclets_def upt_rec fold_into_def check_params_def ex_directive_def
        ex_foo_doc_def ex_foo_code_def default_doclet_def numeral_2_eq_2 Let_def)

theorem merge_doclets_undocumented_and_witness:
  "merge_doclets 1 (ex_directive\<lparr>names := Map.empty, longnames := Map.empty\<rparr>)
       [ex_foo_code, ex_foo_doc] [] [0..<length [ex_foo_code, ex_foo_doc]]
     = Inr (ex_directive\<lparr>names := [Some ''foo'' \<mapsto> 0], longnames := [Some ''foo'' \<mapsto> 0]\<rparr>,
            [ex_foo_doc, ex_foo_doc], [],
            ([0], Map.empty, Map.empty)) \<and>
   0 \<in> set [0::nat] \<and>
   undocumented ex_foo_code \<and> \<not> undocumented ex_foo_doc \<and>
   longname ex_foo_code = longname ex_foo_doc \<and>
   \<not> undocumented ([ex_foo_doc, ex_foo_doc] ! 0)"
proof -
  have m: "0 \<in> set [0::nat]" by simp
  have "undocumented ([ex_foo_doc, ex_foo_doc] ! 0) =
     (\<forall>j<length [ex_foo_code, ex_foo_doc].
        longname ([ex_foo_code, ex_foo_doc] ! j) = longname ([ex_foo_code, ex_foo_doc] ! 0)
        \<longrightarrow> undocumented ([ex_foo_code, ex_foo_doc] ! j))"
    by (rule merge_doclets_undocumented_and[OF ex_pair_eval m])
  moreover have "undocumented ex_foo_code \<and> \<not> undocumented ex_foo_doc \<and>
      longname ex_foo_code = longname ex_foo_doc"
    by (simp add: ex_foo_code_def ex_foo_doc_def default_doclet_def)
  ultimately show ?thesis using ex_pair_eval by auto
qed


lemma upt_5: "[0..<5] = [0, 1, 2, 3, 4]"
  by (simp add: upt_rec)

lemma str_int_7: "str_int 7 = ''7''"
  by (simp add: str_int_def str_nat.simps digit_char_def)

lemma ex_link_eval:
  "merge_doclets 1 (ex_directive\<lparr>names := Map.empty, longnames := Map.empty\<rparr>)
       (map obj_factory ex_link_records) [] [0..<length ex_link_records]
     = Inr (ex_link_self, ex_link_heap,
            [(''Could not link up object A.m to A'', Some ''/src/a.js:7''),
             (anonymous_msg (Some ''<anonymous>~f'') ''<anonymous>'', Some ''<unknown>:0'')],
            ([0, 1, 2, 3, 4], Map.empty, Map.empty))"
  by (simp add: merge_doclets_def upt_5 check_params_def ex_directive_def obj_factory_def
        ex_link_records_def ex_link_self_def ex_link_heap_def
        ex_bar_def ex_orphan_def ex_anon_def ex_hidden_def ex_child_def default_doclet_def
        Let_def doc_def Obj_error_def get_source_line_def os_path_join_def ex_meta_def
        link_msg_def str_opt_def str_int_7 str_int_0 eval_nat_numeral)


section \<open>Claims about the cross-reference resolver\<close>

text \<open>
  Claim C4, as stated, fails: with a function of longname \<^verbatim>\<open>foo\<close> and a class \<^verbatim>\<open>lib.foo\<close> of
  short name \<^verbatim>\<open>foo\<close>, the name index gives the class for \<^verbatim>\<open>foo\<close> and the longname index the
  function, and \<^verbatim>\<open>xref\<close> answers with the token of the function.
\<close>

theorem xref_name_precedence_counterexample:
  "names ex_xref_self (Some ''foo'') = Some 1 \<and> kind (ex_xref_heap ! 1) = ''class'' \<and>
   longnames ex_xref_self (Some ''foo'') = Some 0 \<and> kind (ex_xref_heap ! 0) = ''function'' \<and>
   xref ex_xref_self ex_xref_heap ''foo'' = Inr '':js:func:`foo`'' \<and>
   xref ex_xref_self ex_xref_heap ''foo'' \<noteq> Inr '':js:class:`foo`''"
  by (simp add: xref_def xref_table_def ex_xref_self_def ex_xref_heap_def ex_directive_def
        default_doclet_def)

text \<open>
  Claim C4, amended.  The longname index is consulted with precedence over the name index:
  a name that is a key of the longname index is resolved by the doclet found there, whatever
  the name index holds; the name index decides only for a name that is no longname.  A match
  whose kind has a cross-reference category gives the token of that category.  A name that
  is in neither index is returned unchanged.
\<close>

theorem xref_longname_precedence:
  "(longnames self (Some nm) = Some a \<and> xref_table (kind (heap ! a)) = Some r \<longrightarrow>
      xref self heap nm = Inr ('':'' @ r @ '':`'' @ nm @ ''`'')) \<and>
   (longnames self (Some nm) = None \<and> names self (Some nm) = Some a \<and>
      xref_table (kind (heap ! a)) = Some r \<longrightarrow>
      xref self heap nm = Inr ('':'' @ r @ '':`'' @ nm @ ''`'')) \<and>
   (longnames self (Some nm) = None \<and> names self (Some nm) = None \<longrightarrow>
      xref self heap nm = Inr nm)"
proof -
  have "xref_table [] = None" by (simp add: xref_table_def)
  then have ne: "\<And>k r. xref_table k = Some r \<Longrightarrow> k \<noteq> []" by auto
  show ?thesis
    by (auto simp: xref_def dest: ne)
qed

theorem xref_longname_precedence_witness:
  "longnames ex_xref_self (Some ''foo'') = Some 0 \<and>
   xref_table (kind (ex_xref_heap ! 0)) = Some ''js:func'' \<and>
   xref ex_xref_self ex_xref_heap ''foo'' = Inr ('':'' @ ''js:func'' @ '':`'' @ ''foo'' @ ''`'') \<and>
   longnames ex_xref_self (Some ''Array'') = None \<and> names ex_xref_self (Some ''Array'') = None \<and>
   xref ex_xref_self ex_xref_heap ''Array'' = Inr ''Array''"
proof -
  have h1: "longnames ex_xref_self (Some ''foo'') = Some 0 \<and>
      xref_table (kind (ex_xref_heap ! 0)) = Some ''js:func''"
    by (simp add: xref_table_def ex_xref_self_def ex_xref_heap_def ex_directive_def
          default_doclet_def)
  have h2: "longnames ex_xref_self (Some ''Array'') = None \<and>
      names ex_xref_self (Some ''Array'') = None"
    by (simp add: ex_xref_self_def ex_directive_def)
  show ?thesis
    using xref_longname_precedence[of ex_xref_self "''foo''" 0 ex_xref_heap "''js:func''"]
      xref_longname_precedence[of ex_xref_self "''Array''" 0 ex_xref_heap "''js:func''"] h1 h2
    by blast
qed

section \<open>Proofs: strings\<close>

lemma linebreak_is_space: "is_linebreak c \<Longrightarrow> is_space c"
  by (auto simp: is_linebreak_def is_space_def)

lemma sub_ws_chars: "c \<in> set (sub_ws s) \<Longrightarrow> \<not> is_linebreak c"
proof (induction s rule: sub_ws.induct)
  case 1
  then show ?case by simp
next
  case (2 d ds)
  have sp: "\<not> is_linebreak (CHR '' '')" by (simp add: is_linebreak_def)
  show ?case
  proof (cases "is_space d")
    case True
    with 2 sp show ?thesis by auto
  next
    case False
    with 2 linebreak_is_space show ?thesis by auto
  qed
qed

lemma normalize_space_chars: "c \<in> set (normalize_space s) \<Longrightarrow> \<not> is_linebreak c"
  by (simp add: normalize_space_def sub_ws_chars)

lemma splitlines_from_plain:
  "\<forall>c\<in>set s. \<not> is_linebreak c \<Longrightarrow>
     splitlines_from cur s = (if cur @ s = [] then [] else [cur @ s])"
proof (induction cur s rule: splitlines_from.induct)
  case (3 cur c d cs)
  have "is_linebreak (CHR 0x0D)" by (simp add: is_linebreak_def)
  with 3 show ?case by auto
qed auto

lemma str_splitlines_plain:
  "\<forall>c\<in>set s. \<not> is_linebreak c \<Longrightarrow> s \<noteq> [] \<Longrightarrow> str_splitlines s = [s]"
  by (simp add: str_splitlines_def splitlines_from_plain)

lemma Obj_append_plain:
  "parent self = None \<Longrightarrow> \<forall>c\<in>set text. \<not> is_linebreak c \<Longrightarrow> text \<noteq> [] \<Longrightarrow>
     Obj_append (Suc depth) heap self text indent =
       Inr [(replicate indent (CHR '' '') @ text, own_location self @ '':<autojsdoc>'')]"
  by (cases "meta self")
     (simp_all add: Obj_append_def get_source_line_def own_location_def splitlines_def
        str_splitlines_plain str_int_0)

section \<open>Claims about the render engine\<close>

lemma ex_param_description: "normalize_space ''The  items.'' = ''The items.''"
  by (simp add: normalize_space_def str_strip_def is_space_def)

text \<open>
  Claim C8, as stated, fails: for the type names \<^verbatim>\<open>Array\<close> and \<^verbatim>\<open>null\<close> the parameter field is
  \<^verbatim>\<open>:param Array|null items: The items.\<close>, which holds no backslash at all, so it does not
  contain \<^verbatim>\<open>Array\<close>, a backslash, \<^verbatim>\<open>|null\<close>.
\<close>

theorem JSArgument_escaped_pipe_counterexample:
  "p_type_names ex_param = [''Array'', ''null''] \<and>
   JSArgument_run 1 [] (JSWithTypes_init ex_param) 0 =
     Inr [('':param Array|null items: The items.'', ''<unknown>:0:<autojsdoc>'')] \<and>
   \<not> sublist (''Array'' @ [CHR 0x5C] @ ''|null'') '':param Array|null items: The items.''"
proof -
  have "\<not> sublist (''Array'' @ [CHR 0x5C] @ ''|null'') '':param Array|null items: The items.''"
  proof
    assume "sublist (''Array'' @ [CHR 0x5C] @ ''|null'') '':param Array|null items: The items.''"
    then have "set (''Array'' @ [CHR 0x5C] @ ''|null'') \<subseteq> set '':param Array|null items: The items.''"
      by (rule set_mono_sublist)
    then show False by simp
  qed
  moreover have "JSArgument_run 1 [] (JSWithTypes_init ex_param) 0 =
     Inr [('':param Array|null items: The items.'', ''<unknown>:0:<autojsdoc>'')]"
    by (simp add: JSArgument_run_def JSWithTypes_init_def ex_param_def get_types_def bs_def
          str_opt_def get_description_def ex_param_description Obj_append_def
          get_source_line_def splitlines_def str_splitlines_def is_linebreak_def str_int_0)
  ultimately show ?thesis by (simp add: ex_param_def)
qed

text \<open>
  Claim C8, amended.  For a parameter whose type names are \<^verbatim>\<open>Array\<close> and \<^verbatim>\<open>null\<close>, the rendered
  type union is \<^verbatim>\<open>Array|null\<close>: the names joined by a pipe that is left as it is
  (\<^verbatim>\<open>bs\<close> doubles the backslashes found in the names, and there are none).  The parameter
  field is the text \<^verbatim>\<open>:param Array|null\<close>, the name, a colon and the description; when the
  name has no line boundary it is emitted as one line.
\<close>

theorem JSArgument_type_union:
  "p_type_names p = [''Array'', ''null''] \<Longrightarrow>
   get_types (JSWithTypes_init p) = ''Array|null'' \<and>
   JSArgument_run depth heap (JSWithTypes_init p) indent =
     Obj_append depth heap (JSWithTypes_init p)
       ('':param Array|null '' @ str_opt (p_name p) @ '': '' @ normalize_space (p_description p))
       indent \<and>
   ((\<forall>c\<in>set (str_opt (p_name p)). \<not> is_linebreak c) \<longrightarrow>
      JSArgument_run (Suc depth) heap (JSWithTypes_init p) indent =
        Inr [(replicate indent (CHR '' '') @ '':param Array|null '' @ str_opt (p_name p) @ '': ''
                @ normalize_space (p_description p),
              own_location (JSWithTypes_init p) @ '':<autojsdoc>'')])"
proof -
  assume t: "p_type_names p = [''Array'', ''null'']"
  have g: "get_types (JSWithTypes_init p) = ''Array|null''"
    using t by (simp add: get_types_def JSWithTypes_init_def bs_def)
  have r: "JSArgument_run depth heap (JSWithTypes_init p) indent =
     Obj_append depth heap (JSWithTypes_init p)
       ('':param Array|null '' @ str_opt (p_name p) @ '': '' @ normalize_space (p_description p))
       indent" for depth
    unfolding JSArgument_run_def g
    by (simp add: JSWithTypes_init_def get_description_def)
  have "JSArgument_run (Suc depth) heap (JSWithTypes_init p) indent =
        Inr [(replicate indent (CHR '' '') @ '':param Array|null '' @ str_opt (p_name p) @ '': ''
                @ normalize_space (p_description p),
              own_location (JSWithTypes_init p) @ '':<autojsdoc>'')]"
    if n: "\<forall>c\<in>set (str_opt (p_name p)). \<not> is_linebreak c"
  proof -
    have pn: "parent (JSWithTypes_init p) = None" by (simp add: JSWithTypes_init_def)
    have "\<forall>c\<in>set ('':param Array|null '' @ str_opt (p_name p) @ '': ''
                   @ normalize_space (p_description p)). \<not> is_linebreak c"
      using n normalize_space_chars by (auto simp: is_linebreak_def)
    then show ?thesis
      unfolding r using Obj_append_plain[OF pn, of _ depth heap indent] by simp
  qed
  then show ?thesis using g r by blast
qed

theorem JSArgument_type_union_witness:
  "p_type_names ex_param = [''Array'', ''null''] \<and>
   list_all (\<lambda>c. \<not> is_linebreak c) (str_opt (p_name ex_param)) \<and>
   get_types (JSWithTypes_init ex_param) = ''Array|null'' \<and>
   JSArgument_run (Suc 0) [] (JSWithTypes_init ex_param) 3 =
     Inr [(replicate 3 (CHR '' '') @ '':param Array|null '' @ str_opt (p_name ex_param) @ '': ''
             @ normalize_space (p_description ex_param),
           own_location (JSWithTypes_init ex_param) @ '':<autojsdoc>'')]"
proof -
  have h: "p_type_names ex_param = [''Array'', ''null'']" by (simp add: ex_param_def)
  have n: "\<forall>c\<in>set (str_opt (p_name ex_param)). \<not> is_linebreak c"
    by (simp add: ex_param_def str_opt_def is_linebreak_def)
  have n': "list_all (\<lambda>c. \<not> is_linebreak c) (str_opt (p_name ex_param))"
    using n by (simp only: list_all_iff)
  show ?thesis
    using JSArgument_type_union[OF h, of 0 "[]" 3] h n n' by blast
qed




section \<open>Claims about the structure cache\<close>

lemma load_structure_hit:
  "loaded_structure_files proc p = Some (h, (m, ns, lns)) \<Longrightarrow>
     load_structure depth fs proc self p =
       Inr (proc, self\<lparr>doclets := m, names := ns, longnames := lns\<rparr>, h)"
  by (simp add: load_structure_def)

lemma load_structure_entry:
  assumes "load_structure depth fs proc self p = Inr (proc1, self1, heap1)"
  shows "(\<forall>q e. loaded_structure_files proc q = Some e \<longrightarrow>
             loaded_structure_files proc1 q = Some e) \<and>
         loaded_structure_files proc1 p =
           Some (heap1, (doclets self1, names self1, longnames self1))"
proof (cases "loaded_structure_files proc p")
  case None
  with assms show ?thesis
    by (auto simp: load_structure_def Let_def
             split: option.splits file_content.splits sum.splits)
next
  case (Some e)
  obtain h m ns lns where e: "e = (h, (m, ns, lns))" by (metis prod_cases4)
  from load_structure_hit[of proc p h m ns lns depth fs self] Some e assms
  show ?thesis by auto
qed

lemma ex_load_eval:
  "load_structure 1 ex_fs ex_process
       (ex_directive\<lparr>doclets := [], names := Map.empty, longnames := Map.empty\<rparr>)
       ''structure.json''
     = Inr (ex_process_loaded,
            ex_directive\<lparr>doclets := [0, 1, 2, 3, 4], names := Map.empty, longnames := Map.empty\<rparr>,
            ex_link_heap)"
proof -
  have d: "ex_directive\<lparr>doclets := [], names := Map.empty, longnames := Map.empty\<rparr>
      = ex_directive\<lparr>names := Map.empty, longnames := Map.empty\<rparr>"
    by (simp add: ex_directive_def)
  show ?thesis
    unfolding d
    by (simp add: load_structure_def ex_fs_def ex_process_def ex_link_eval[unfolded One_nat_def]
          ex_process_loaded_def ex_link_log_def)
       (simp add: ex_link_self_def ex_directive_def)
qed

lemma run_keeps_cache:
  assumes "run depth rex fs proc self = Inr (proc', self', content)"
  shows "\<forall>q e. loaded_structure_files proc q = Some e \<longrightarrow>
            loaded_structure_files proc' q = Some e"
proof -
  let ?self = "self\<lparr>doclets := [], names := Map.empty, longnames := Map.empty\<rparr>"
  from assms obtain p proc1 self1 heap
    where l: "load_structure depth fs proc ?self p = Inr (proc1, self1, heap)"
      and c: "loaded_structure_files proc' = loaded_structure_files proc1"
    by (auto simp: run_def Let_def split: sum.splits optval.splits error.splits)
  from load_structure_entry[OF l] c show ?thesis by simp
qed

text \<open>
  Claim C5.  A request for a path that the cache holds returns the cached store and triple
  and leaves the whole process state as it is, whatever the file system holds, so the file
  is neither read nor merged again.  A request that returns leaves every entry that was in
  the cache as it was, holds for its path the triple it hands to the directive, and every
  later request for that path, by any directive and under any file system, returns that
  same store and triple without changing the process state.  A whole call of \<^verbatim>\<open>run\<close> that
  returns leaves every entry that was in the cache as it was.
\<close>

theorem load_structure_cached_once:
  "(loaded_structure_files proc p = Some (h, (m, ns, lns)) \<longrightarrow>
      load_structure depth fs proc self p =
        Inr (proc, self\<lparr>doclets := m, names := ns, longnames := lns\<rparr>, h)) \<and>
   (load_structure depth fs proc self p = Inr (proc1, self1, heap1) \<longrightarrow>
      (\<forall>q e. loaded_structure_files proc q = Some e \<longrightarrow>
              loaded_structure_files proc1 q = Some e) \<and>
      loaded_structure_files proc1 p =
        Some (heap1, (doclets self1, names self1, longnames self1)) \<and>
      (\<forall>depth' fs' self2.
         load_structure depth' fs' proc1 self2 p =
           Inr (proc1,
                self2\<lparr>doclets := doclets self1, names := names self1,
                       longnames := longnames self1\<rparr>,
                heap1))) \<and>
   (run depth rex fs proc self = Inr (proc2, self3, content) \<longrightarrow>
      (\<forall>q e. loaded_structure_files proc q = Some e \<longrightarrow>
              loaded_structure_files proc2 q = Some e))"
proof (intro conjI impI)
  assume "loaded_structure_files proc p = Some (h, (m, ns, lns))"
  then show "load_structure depth fs proc self p =
        Inr (proc, self\<lparr>doclets := m, names := ns, longnames := lns\<rparr>, h)"
    by (rule load_structure_hit)
next
  assume l: "load_structure depth fs proc self p = Inr (proc1, self1, heap1)"
  note e = load_structure_entry[OF l]
  from e show "\<forall>q e. loaded_structure_files proc q = Some e \<longrightarrow>
              loaded_structure_files proc1 q = Some e"
    by blast
  from e show c: "loaded_structure_files proc1 p =
        Some (heap1, (doclets self1, names self1, longnames self1))"
    by blast
  show "\<forall>depth' fs' self2.
         load_structure depth' fs' proc1 self2 p =
           Inr (proc1,
                self2\<lparr>doclets := doclets self1, names := names self1,
                       longnames := longnames self1\<rparr>,
                heap1)"
    using load_structure_hit[OF c] by blast
next
  assume "run depth rex fs proc self = Inr (proc2, self3, content)"
  then show "\<forall>q e. loaded_structure_files proc q = Some e \<longrightarrow>
              loaded_structure_files proc2 q = Some e"
    by (rule run_keeps_cache)
qed

theorem load_structure_cached_once_witness:
  "load_structure 1 ex_fs ex_process
       (ex_directive\<lparr>doclets := [], names := Map.empty, longnames := Map.empty\<rparr>)
       ''structure.json''
     = Inr (ex_process_loaded,
            ex_directive\<lparr>doclets := [0, 1, 2, 3, 4], names := Map.empty, longnames := Map.empty\<rparr>,
            ex_link_heap) \<and>
   loaded_structure_files ex_process_loaded ''structure.json'' =
     Some (ex_link_heap, ([0, 1, 2, 3, 4], Map.empty, Map.empty)) \<and>
   load_structure 0 Map.empty ex_process_loaded ex_directive ''structure.json''
     = Inr (ex_process_loaded,
            ex_directive\<lparr>doclets := [0, 1, 2, 3, 4], names := Map.empty, longnames := Map.empty\<rparr>,
            ex_link_heap)"
proof -
  have c: "loaded_structure_files ex_process_loaded ''structure.json'' =
     Some (ex_link_heap, ([0, 1, 2, 3, 4], Map.empty, Map.empty))"
    by (simp add: ex_process_loaded_def)
  from load_structure_cached_once[of ex_process_loaded "''structure.json''" ex_link_heap
      "[0, 1, 2, 3, 4]" Map.empty Map.empty 0 Map.empty ex_directive] c
  have "load_structure 0 Map.empty ex_process_loaded ex_directive ''structure.json''
     = Inr (ex_process_loaded,
            ex_directive\<lparr>doclets := [0, 1, 2, 3, 4], names := Map.empty, longnames := Map.empty\<rparr>,
            ex_link_heap)"
    by blast
  then show ?thesis using ex_load_eval c by blast
qed

text \<open>
  Claim C10.  The second and third components of the triple that \<^verbatim>\<open>merge_doclets\<close> returns are
  empty dictionaries whatever the input.  The cache, empty when the process starts, is
  written by \<^verbatim>\<open>run\<close> with such triples only; so when every entry of the cache holds two empty
  indexes, a request that returns keeps it so and leaves the directive with an empty name
  index and an empty longname index, with which the resolver returns every name unchanged.
\<close>

theorem merge_doclets_returns_empty_indexes:
  "(merge_doclets depth self heap log ds = Inr (self', heap', log', (merged, ns, lns)) \<longrightarrow>
      ns = Map.empty \<and> lns = Map.empty) \<and>
   (empty_indexes_cached proc \<and>
    load_structure depth fs proc self p = Inr (proc1, self1, heap1) \<longrightarrow>
      empty_indexes_cached proc1 \<and> names self1 = Map.empty \<and> longnames self1 = Map.empty \<and>
      (\<forall>nm. xref self1 heap1 nm = Inr nm))"
proof -
  have m: "ns = Map.empty \<and> lns = Map.empty"
    if "merge_doclets depth self heap log ds = Inr (self', heap', log', (merged, ns, lns))"
    for depth self heap log ds self' heap' log' merged ns lns
    using that by (auto simp: merge_doclets_def split: sum.splits)
  have l: "empty_indexes_cached proc1 \<and> names self1 = Map.empty \<and> longnames self1 = Map.empty \<and>
      (\<forall>nm. xref self1 heap1 nm = Inr nm)"
    if e: "empty_indexes_cached proc"
      and ld: "load_structure depth fs proc self p = Inr (proc1, self1, heap1)"
  proof -
    have c1: "empty_indexes_cached proc1"
    proof (cases "loaded_structure_files proc p")
      case None
      with ld obtain rs self2 heap2 log2 mg ns2 lns2
        where mr: "merge_doclets depth self (map obj_factory rs)
                     (error_log (proc\<lparr>record_dependencies := insert p (record_dependencies proc)\<rparr>))
                     [0..<length rs] = Inr (self2, heap2, log2, (mg, ns2, lns2))"
          and p1: "loaded_structure_files proc1 =
                     (loaded_structure_files proc)(p \<mapsto> (heap2, (mg, ns2, lns2)))"
        by (auto simp: load_structure_def Let_def
                 split: option.splits file_content.splits sum.splits)
      from m[OF mr] have n2: "ns2 = Map.empty \<and> lns2 = Map.empty" .
      show ?thesis
        unfolding empty_indexes_cached_def
      proof (intro allI impI)
        fix q hh mm nn ll
        assume a: "loaded_structure_files proc1 q = Some (hh, (mm, nn, ll))"
        show "nn = Map.empty \<and> ll = Map.empty"
        proof (cases "q = p")
          case True
          with a p1 have "Some (hh, (mm, nn, ll)) = Some (heap2, (mg, ns2, lns2))"
            by (metis fun_upd_same)
          then have "nn = ns2" "ll = lns2" by blast+
          with n2 show ?thesis by blast
        next
          case False
          with a p1 have "loaded_structure_files proc q = Some (hh, (mm, nn, ll))" by simp
          with e show ?thesis unfolding empty_indexes_cached_def by blast
        qed
      qed
    next
      case (Some en)
      obtain h mm ns lns where "en = (h, (mm, ns, lns))" by (metis prod_cases4)
      with load_structure_hit[of proc p h mm ns lns depth fs self] Some ld e
      show ?thesis by auto
    qed
    from load_structure_entry[OF ld]
    have "loaded_structure_files proc1 p =
        Some (heap1, (doclets self1, names self1, longnames self1))"
      by simp
    with c1 have n: "names self1 = Map.empty \<and> longnames self1 = Map.empty"
      unfolding empty_indexes_cached_def by blast
    then have "\<forall>nm. xref self1 heap1 nm = Inr nm"
      by (simp add: xref_def)
    with c1 n show ?thesis by simp
  qed
  show ?thesis using m l by blast
qed

theorem merge_doclets_returns_empty_indexes_witness:
  "merge_doclets 1 (ex_directive\<lparr>names := Map.empty, longnames := Map.empty\<rparr>)
       (map obj_factory ex_link_records) [] [0..<length ex_link_records]
     = Inr (ex_link_self, ex_link_heap, ex_link_log, ([0, 1, 2, 3, 4], Map.empty, Map.empty)) \<and>
   longnames ex_link_self (Some ''bar'') = Some 0 \<and>
   empty_indexes_cached ex_process \<and>
   load_structure 1 ex_fs ex_process
       (ex_directive\<lparr>doclets := [], names := Map.empty, longnames := Map.empty\<rparr>)
       ''structure.json''
     = Inr (ex_process_loaded,
            ex_directive\<lparr>doclets := [0, 1, 2, 3, 4], names := Map.empty, longnames := Map.empty\<rparr>,
            ex_link_heap) \<and>
   empty_indexes_cached ex_process_loaded \<and>
   xref (ex_directive\<lparr>doclets := [0, 1, 2, 3, 4], names := Map.empty, longnames := Map.empty\<rparr>)
        ex_link_heap ''bar'' = Inr ''bar''"
proof -
  have e: "empty_indexes_cached ex_process"
    by (simp add: empty_indexes_cached_def ex_process_def)
  have b: "longnames ex_link_self (Some ''bar'') = Some 0"
    by (simp add: ex_link_self_def)
  have me: "merge_doclets 1 (ex_directive\<lparr>names := Map.empty, longnames := Map.empty\<rparr>)
       (map obj_factory ex_link_records) [] [0..<length ex_link_records]
     = Inr (ex_link_self, ex_link_heap, ex_link_log, ([0, 1, 2, 3, 4], Map.empty, Map.empty))"
    using ex_link_eval by (simp add: ex_link_log_def)
  from merge_doclets_returns_empty_indexes[where depth = 1 and proc = ex_process and fs = ex_fs
      and self = "ex_directive\<lparr>doclets := [], names := Map.empty, longnames := Map.empty\<rparr>"
      and p = "''structure.json''" and ?proc1.0 = ex_process_loaded
      and ?self1.0 = "ex_directive\<lparr>doclets := [0, 1, 2, 3, 4], names := Map.empty,
                                   longnames := Map.empty\<rparr>"
      and ?heap1.0 = ex_link_heap] e ex_load_eval
  have "empty_indexes_cached ex_process_loaded \<and>
      xref (ex_directive\<lparr>doclets := [0, 1, 2, 3, 4], names := Map.empty, longnames := Map.empty\<rparr>)
        ex_link_heap ''bar'' = Inr ''bar''"
    by blast
  then show ?thesis using e b me ex_load_eval by blast
qed

section \<open>Proofs: selection and ordering\<close>





section \<open>Claims about selection and ordering\<close>















end
